theory Spec2Isabelle
  imports Complex_Main
begin

section \<open>JavaScript numbers\<close>

text \<open>
  The engine computes on JavaScript numbers. A number is modelled as a real or one of the
  three special values of IEEE 754 arithmetic. Arithmetic on finite values is exact
  (rounding and overflow are not modelled) and the two zeros are identified, a zero divisor
  being read as the positive zero; the special values follow the language: an undefined
  quotient or product is \<open>NaN\<close>, every comparison with \<open>NaN\<close> is false, and \<open>NaN\<close> and zero
  are the falsy numbers.
\<close>

datatype jsnum = Fin real | PInf | NInf | NaN

fun isFinite :: "jsnum \<Rightarrow> bool" where
  "isFinite (Fin a) = True"
| "isFinite v = False"

fun jneg :: "jsnum \<Rightarrow> jsnum" where
  "jneg (Fin a) = Fin (- a)"
| "jneg PInf = NInf"
| "jneg NInf = PInf"
| "jneg NaN = NaN"

fun jadd :: "jsnum \<Rightarrow> jsnum \<Rightarrow> jsnum" where
  "jadd (Fin a) (Fin b) = Fin (a + b)"
| "jadd NaN v = NaN"
| "jadd v NaN = NaN"
| "jadd PInf NInf = NaN"
| "jadd NInf PInf = NaN"
| "jadd PInf v = PInf"
| "jadd v PInf = PInf"
| "jadd NInf v = NInf"
| "jadd v NInf = NInf"

definition jsub :: "jsnum \<Rightarrow> jsnum \<Rightarrow> jsnum" where
  "jsub a b = jadd a (jneg b)"

text \<open>The sign of a number that is not \<open>NaN\<close>: \<open>-1\<close>, \<open>0\<close> or \<open>1\<close>.\<close>

fun jsign :: "jsnum \<Rightarrow> real" where
  "jsign (Fin a) = sgn a"
| "jsign PInf = 1"
| "jsign NInf = - 1"
| "jsign NaN = 0"

definition signedInf :: "real \<Rightarrow> jsnum" where
  "signedInf s = (if s = 0 then NaN else if 0 < s then PInf else NInf)"

fun jmul :: "jsnum \<Rightarrow> jsnum \<Rightarrow> jsnum" where
  "jmul (Fin a) (Fin b) = Fin (a * b)"
| "jmul NaN v = NaN"
| "jmul v NaN = NaN"
| "jmul u v = signedInf (jsign u * jsign v)"

fun jdiv :: "jsnum \<Rightarrow> jsnum \<Rightarrow> jsnum" where
  "jdiv (Fin a) (Fin b) = (if b = 0 then signedInf (sgn a) else Fin (a / b))"
| "jdiv NaN v = NaN"
| "jdiv v NaN = NaN"
| "jdiv (Fin a) v = Fin 0"
| "jdiv u (Fin b) = signedInf (jsign u * (if b < 0 then - 1 else 1))"
| "jdiv u v = NaN"

fun jabs :: "jsnum \<Rightarrow> jsnum" where
  "jabs (Fin a) = Fin \<bar>a\<bar>"
| "jabs PInf = PInf"
| "jabs NInf = PInf"
| "jabs NaN = NaN"

fun jsqrt :: "jsnum \<Rightarrow> jsnum" where
  "jsqrt (Fin a) = (if a < 0 then NaN else Fin (sqrt a))"
| "jsqrt PInf = PInf"
| "jsqrt v = NaN"

fun jlog :: "jsnum \<Rightarrow> jsnum" where
  "jlog (Fin a) = (if a < 0 then NaN else if a = 0 then NInf else Fin (ln a))"
| "jlog PInf = PInf"
| "jlog v = NaN"

fun jexp :: "jsnum \<Rightarrow> jsnum" where
  "jexp (Fin a) = Fin (exp a)"
| "jexp PInf = PInf"
| "jexp NInf = Fin 0"
| "jexp NaN = NaN"

text \<open>\<open>Math.pow\<close>, case by case as the language defines exponentiation.\<close>

definition isOddInt :: "real \<Rightarrow> bool" where
  "isOddInt e = (e = of_int \<lfloor>e\<rfloor> \<and> odd \<lfloor>e\<rfloor>)"

fun jpow :: "jsnum \<Rightarrow> jsnum \<Rightarrow> jsnum" where
  "jpow b NaN = NaN"
| "jpow b (Fin e) =
     (if e = 0 then Fin 1
      else case b of
        NaN \<Rightarrow> NaN
      | PInf \<Rightarrow> (if 0 < e then PInf else Fin 0)
      | NInf \<Rightarrow> (if 0 < e then (if isOddInt e then NInf else PInf) else Fin 0)
      | Fin a \<Rightarrow>
          (if a = 0 then (if 0 < e then Fin 0 else PInf)
           else if 0 < a then Fin (a powr e)
           else if e = of_int \<lfloor>e\<rfloor> then Fin (a powi \<lfloor>e\<rfloor>)
           else NaN))"
| "jpow b PInf =
     (case b of
        NaN \<Rightarrow> NaN
      | PInf \<Rightarrow> PInf
      | NInf \<Rightarrow> PInf
      | Fin a \<Rightarrow> (if a = 0 then Fin 0 else if 1 < \<bar>a\<bar> then PInf
                   else if \<bar>a\<bar> = 1 then NaN else Fin 0))"
| "jpow b NInf =
     (case b of
        NaN \<Rightarrow> NaN
      | PInf \<Rightarrow> Fin 0
      | NInf \<Rightarrow> Fin 0
      | Fin a \<Rightarrow> (if a = 0 then PInf else if 1 < \<bar>a\<bar> then Fin 0
                   else if \<bar>a\<bar> = 1 then NaN else PInf))"

text \<open>Comparisons: \<open><\<close>, \<open><=\<close>, \<open>>\<close>, \<open>>=\<close> and \<open>===\<close>. Each is false when an operand is \<open>NaN\<close>.\<close>

fun jlt :: "jsnum \<Rightarrow> jsnum \<Rightarrow> bool" where
  "jlt (Fin a) (Fin b) = (a < b)"
| "jlt NaN v = False"
| "jlt v NaN = False"
| "jlt v NInf = False"
| "jlt PInf v = False"
| "jlt u v = True"

fun jeq :: "jsnum \<Rightarrow> jsnum \<Rightarrow> bool" where
  "jeq NaN v = False"
| "jeq u v = (u = v)"

definition jle :: "jsnum \<Rightarrow> jsnum \<Rightarrow> bool" where
  "jle a b = (jlt a b \<or> jeq a b)"

definition jgt :: "jsnum \<Rightarrow> jsnum \<Rightarrow> bool" where
  "jgt a b = jlt b a"

definition jge :: "jsnum \<Rightarrow> jsnum \<Rightarrow> bool" where
  "jge a b = jle b a"

text \<open>Truthiness of a number, and the operator \<open>a || b\<close> on numbers.\<close>

definition truthy :: "jsnum \<Rightarrow> bool" where
  "truthy a = (a \<noteq> NaN \<and> a \<noteq> Fin 0)"

definition jor :: "jsnum \<Rightarrow> jsnum \<Rightarrow> jsnum" where
  "jor a b = (if truthy a then a else b)"

text \<open>
  Reading an array at an index: out of range the language gives \<open>undefined\<close>. Wherever the
  engine uses such a read as a number, \<open>undefined\<close> converts to \<open>NaN\<close>, so the read is modelled
  as \<open>NaN\<close>; the one place where \<open>undefined\<close> is used as an object is modelled separately.
\<close>

definition elemAt :: "jsnum list \<Rightarrow> nat \<Rightarrow> jsnum" where
  "elemAt xs i = (if i < length xs then xs ! i else NaN)"

definition ofNat :: "nat \<Rightarrow> jsnum" where
  "ofNat k = Fin (real k)"

section \<open>Data model\<close>

datatype CurveModel =
    linear_pearson
  | linear_theil_sen
  | piecewise_linear
  | piecewise_mixed
  | polynomial_2nd
  | polynomial_3rd
  | power
  | exponential
  | logarithmic

datatype Quality = EXCELLENT | GOOD | POOR | INVALID

record AnovaResult =
  sse :: jsnum
  ssr :: jsnum
  sst :: jsnum
  dfReg :: jsnum
  dfRes :: jsnum
  msReg :: jsnum
  msRes :: jsnum
  fStatistic :: jsnum

text \<open>One segment of a flexible split: its family, its coefficients and its band limit.\<close>

record Segment =
  segType :: CurveModel
  segCoeffs :: "jsnum list"
  segLimit :: jsnum

record SubModels =
  low :: Segment
  high :: Segment

text \<open>
  The outcome of one statistical test. Of the source's fields, the display strings (label,
  statistic name, detail) are left out; an absent \<open>isNotApplicable\<close> is \<open>False\<close>.
\<close>

record ValidationStepResult =
  passed :: bool
  statisticValue :: jsnum
  criticalValue :: jsnum
  isNotApplicable :: bool

record RegressionValidation =
  correlation :: ValidationStepResult
  normalityX :: ValidationStepResult
  normalityY :: ValidationStepResult
  normalityResiduals :: ValidationStepResult
  modelSignificance :: ValidationStepResult
  independence :: ValidationStepResult
  mandelLinearity :: "ValidationStepResult option"

text \<open>
  A recommendation is a fixed string or the template string that names the AICc gap
  (\<open>Existen modelos con mejor ajuste\<close>, with the gap formatted into it). Accented
  letters of the source's strings are written without the accent.
\<close>

datatype message = Literal string | BetterFitsExist jsnum

fun textTruthy :: "message \<Rightarrow> bool" where
  "textTruthy (Literal s) = (s \<noteq> [])"
| "textTruthy (BetterFitsExist d) = True"

text \<open>
  The regression result. The source's field \<open>n\<close> is \<open>nUsed\<close> here; the equation string and
  the validation log, which are display text, are left out.
\<close>

record RegressionResult =
  coefficients :: "jsnum list"
  rSquared :: jsnum
  residualStdDev :: jsnum
  extendedValidation :: "RegressionValidation option"
  xBar :: jsnum
  sumSqDiffX :: jsnum
  nUsed :: jsnum
  durbinWatson :: jsnum
  anova :: "AnovaResult option"
  isParametricValid :: bool
  aic :: jsnum
  aicc :: jsnum
  bic :: jsnum
  modelQuality :: Quality
  recommendationText :: message
  subModels :: "SubModels option"
  isBestFit :: "bool option"

section \<open>Statistical helpers\<close>

definition getTStudentCrit :: "jsnum \<Rightarrow> jsnum" where
  "getTStudentCrit df =
     (if jle df (Fin 1) then Fin 12.706 else if jle df (Fin 2) then Fin 4.303
      else if jle df (Fin 3) then Fin 3.182 else if jle df (Fin 4) then Fin 2.776
      else if jle df (Fin 5) then Fin 2.571 else if jle df (Fin 10) then Fin 2.228
      else if jle df (Fin 20) then Fin 2.086 else if jle df (Fin 60) then Fin 2.000
      else Fin 1.960)"

definition getFCrit :: "jsnum \<Rightarrow> jsnum \<Rightarrow> jsnum" where
  "getFCrit df2 df1 =
     (if jeq df1 (Fin 1) then
        (if jle df2 (Fin 1) then Fin 161.45 else if jle df2 (Fin 2) then Fin 18.51
         else if jle df2 (Fin 3) then Fin 10.13 else if jle df2 (Fin 4) then Fin 7.71
         else if jle df2 (Fin 5) then Fin 6.61 else if jle df2 (Fin 10) then Fin 4.96
         else if jle df2 (Fin 20) then Fin 4.35 else if jle df2 (Fin 60) then Fin 4.00
         else Fin 3.84)
      else Fin 3.00)"

text \<open>\<open>calculateAIC\<close> returns the triple \<open>(aic, aicc, bic)\<close>.\<close>

definition calculateAIC :: "jsnum \<Rightarrow> jsnum \<Rightarrow> jsnum \<Rightarrow> jsnum \<times> jsnum \<times> jsnum" where
  "calculateAIC n k sse0 =
     (let sse = (if jle sse0 (Fin (1 / 10 ^ 15)) then Fin (1 / 10 ^ 15) else sse0);
          aic = jadd (jmul n (jlog (jdiv sse n))) (jmul (Fin 2) k);
          aicc = jadd aic (jdiv (jmul (jmul (Fin 2) k) (jadd k (Fin 1)))
                                (jsub (jsub n k) (Fin 1)));
          bic = jadd (jmul n (jlog (jdiv sse n))) (jmul k (jlog n))
      in (aic, aicc, bic))"

section \<open>Prediction\<close>

text \<open>\<open>coeffs[i] || 0\<close>: a missing, zero or \<open>NaN\<close> coefficient reads as zero.\<close>

definition coeffOr0 :: "jsnum list \<Rightarrow> nat \<Rightarrow> jsnum" where
  "coeffOr0 cs i = jor (elemAt cs i) (Fin 0)"

text \<open>
  The interpolation of the flexible split inside its band, the last three lines of the
  split branch of \<open>predictValue\<close>.
\<close>

definition blend :: "jsnum \<Rightarrow> jsnum \<Rightarrow> jsnum \<Rightarrow> jsnum \<Rightarrow> jsnum \<Rightarrow> jsnum" where
  "blend xInput splitStart splitEnd y1 y2 =
     (let alpha = jdiv (jsub xInput splitStart) (jsub splitEnd splitStart)
      in jadd (jmul (jsub (Fin 1) alpha) y1) (jmul alpha y2))"

function (sequential) predictValue :: "jsnum \<Rightarrow> CurveModel \<Rightarrow> jsnum list \<Rightarrow> SubModels option \<Rightarrow> jsnum" where
  "predictValue xInput piecewise_mixed coeffs (Some sm) =
     (let lo = low sm; hi = high sm;
          splitStart = segLimit hi;
          splitEnd = segLimit lo
      in if jle xInput splitStart then predictValue xInput (segType lo) (segCoeffs lo) None
         else if jge xInput splitEnd then predictValue xInput (segType hi) (segCoeffs hi) None
         else blend xInput splitStart splitEnd
                (predictValue xInput (segType lo) (segCoeffs lo) None)
                (predictValue xInput (segType hi) (segCoeffs hi) None))"
| "predictValue xInput model coeffs sm =
     (let c0 = coeffOr0 coeffs 0; c1 = coeffOr0 coeffs 1;
          c2 = coeffOr0 coeffs 2; c3 = coeffOr0 coeffs 3
      in case model of
           linear_pearson \<Rightarrow> jadd c0 (jmul c1 xInput)
         | linear_theil_sen \<Rightarrow> jadd c0 (jmul c1 xInput)
         | polynomial_2nd \<Rightarrow> jadd (jadd c0 (jmul c1 xInput)) (jmul (jmul c2 xInput) xInput)
         | polynomial_3rd \<Rightarrow>
             jadd (jadd (jadd c0 (jmul c1 xInput)) (jmul c2 (jpow xInput (Fin 2))))
                  (jmul c3 (jpow xInput (Fin 3)))
         | power \<Rightarrow> jmul c0 (jpow xInput c1)
         | exponential \<Rightarrow> jmul c0 (jexp (jmul c1 xInput))
         | logarithmic \<Rightarrow> jadd c0 (jmul c1 (jlog xInput))
         | _ \<Rightarrow> xInput)"
  by pat_completeness auto
termination
  by (relation "measure (\<lambda>(xInput, model, coeffs, sm). if sm = None then 0 else 1)") auto

section \<open>Interpolation uncertainty\<close>

definition calculateInterpolationUncertainty ::
  "jsnum \<Rightarrow> RegressionResult \<Rightarrow> CurveModel \<Rightarrow> jsnum" where
  "calculateInterpolationUncertainty xInput reg model =
     (if jlt (nUsed reg) (Fin 3) then Fin 0
      else if model = piecewise_mixed \<and> subModels reg \<noteq> None then residualStdDev reg
      else if (model = power \<or> model = logarithmic) \<and> jle xInput (Fin 0)
        then jmul (residualStdDev reg) (Fin 2)
      else
        let xTrans = (if model = power \<or> model = logarithmic then jlog xInput else xInput);
            df = (case anova reg of Some a \<Rightarrow> dfRes a | None \<Rightarrow> jsub (nUsed reg) (Fin 2));
            t = getTStudentCrit df
        in if jeq (sumSqDiffX reg) (Fin 0) then residualStdDev reg
           else
             let term = jadd (jadd (Fin 1) (jdiv (Fin 1) (nUsed reg)))
                             (jdiv (jpow (jsub xTrans (xBar reg)) (Fin 2)) (sumSqDiffX reg));
                 u = jmul (jmul t (residualStdDev reg)) (jsqrt term)
             in if model = power \<or> model = exponential
                then jabs (jmul (predictValue xInput model (coefficients reg) None) u)
                else u)"

section \<open>Array helpers\<close>

datatype jserror = TypeError

definition jne :: "jsnum \<Rightarrow> jsnum \<Rightarrow> bool" where
  "jne a b = (\<not> jeq a b)"

text \<open>\<open>xs.reduce((a, b) => a + b, 0)\<close>.\<close>

definition jsum :: "jsnum list \<Rightarrow> jsnum" where
  "jsum xs = foldl jadd (Fin 0) xs"

text \<open>\<open>xs.reduce((s, v) => s + f(v), 0)\<close> and its variant that also reads the index.\<close>

definition sumOf :: "(jsnum \<Rightarrow> jsnum) \<Rightarrow> jsnum list \<Rightarrow> jsnum" where
  "sumOf f xs = foldl (\<lambda>s v. jadd s (f v)) (Fin 0) xs"

definition sumOfIdx :: "(jsnum \<Rightarrow> nat \<Rightarrow> jsnum) \<Rightarrow> jsnum list \<Rightarrow> jsnum" where
  "sumOfIdx f xs = foldl (\<lambda>s (v, i). jadd s (f v i)) (Fin 0) (zip xs [0..<length xs])"

text \<open>\<open>xs.map((v, i) => f(v, i))\<close>.\<close>

definition mapIdx :: "(jsnum \<Rightarrow> nat \<Rightarrow> 'b) \<Rightarrow> jsnum list \<Rightarrow> 'b list" where
  "mapIdx f xs = map (\<lambda>(v, i). f v i) (zip xs [0..<length xs])"

text \<open>
  \<open>xs.sort((a, b) => a - b)\<close>, on a key. The language fixes the result only for a
  consistent comparator, which this one is when no key is \<open>NaN\<close>: the result is then the
  stable ascending order. The model is a stable insertion sort, which moves an element
  behind its neighbour exactly when the comparator is positive.
\<close>

fun jsInsertBy :: "('a \<Rightarrow> jsnum) \<Rightarrow> 'a \<Rightarrow> 'a list \<Rightarrow> 'a list" where
  "jsInsertBy key a [] = [a]"
| "jsInsertBy key a (b # bs) =
     (if jgt (jsub (key a) (key b)) (Fin 0) then b # jsInsertBy key a bs else a # b # bs)"

definition jsSortBy :: "('a \<Rightarrow> jsnum) \<Rightarrow> 'a list \<Rightarrow> 'a list" where
  "jsSortBy key xs = foldr (jsInsertBy key) xs []"

definition jsSort :: "jsnum list \<Rightarrow> jsnum list" where
  "jsSort xs = jsSortBy (\<lambda>v. v) xs"

text \<open>
  \<open>parseFloat(v.toFixed(d))\<close>: the nearest multiple of \<open>10^-d\<close>, a tie going away from
  zero; from \<open>10^21\<close> on \<open>toFixed\<close> prints the number itself.
\<close>

fun roundFixed :: "nat \<Rightarrow> jsnum \<Rightarrow> jsnum" where
  "roundFixed d (Fin a) =
     (if 10 ^ 21 \<le> \<bar>a\<bar> then Fin a
      else Fin (sgn a * of_int \<lfloor>\<bar>a\<bar> * 10 ^ d + 1 / 2\<rfloor> / 10 ^ d))"
| "roundFixed d v = v"

section \<open>Linear algebra kernel\<close>

text \<open>
  \<open>solveLinearSystem\<close>: Gaussian elimination with partial pivoting, then back
  substitution. The source works in place on the matrix \<open>A\<close> and the vector \<open>B\<close>; each
  loop is a fold over its index range that returns the updated arrays.
\<close>

definition getCell :: "jsnum list list \<Rightarrow> nat \<Rightarrow> nat \<Rightarrow> jsnum" where
  "getCell A r c = (if r < length A then elemAt (A ! r) c else NaN)"

definition setCell :: "jsnum list list \<Rightarrow> nat \<Rightarrow> nat \<Rightarrow> jsnum \<Rightarrow> jsnum list list" where
  "setCell A r c v = A[r := (A ! r)[c := v]]"

definition findPivot :: "jsnum list list \<Rightarrow> nat \<Rightarrow> nat \<Rightarrow> nat" where
  "findPivot A n i =
     snd (fold (\<lambda>k (maxEl, maxRow).
                  if jgt (jabs (getCell A k i)) maxEl then (jabs (getCell A k i), k)
                  else (maxEl, maxRow))
            [Suc i..<n] (jabs (getCell A i i), i))"

definition swapRows :: "jsnum list list \<Rightarrow> nat \<Rightarrow> nat \<Rightarrow> nat \<Rightarrow> jsnum list list" where
  "swapRows A n i maxRow =
     fold (\<lambda>k M. let tmp = getCell M maxRow k;
                      M1 = setCell M maxRow k (getCell M i k)
                  in setCell M1 i k tmp)
       [i..<n] A"

definition swapEntries :: "jsnum list \<Rightarrow> nat \<Rightarrow> nat \<Rightarrow> jsnum list" where
  "swapEntries B i maxRow = (let tmp = elemAt B maxRow; B1 = B[maxRow := elemAt B i] in B1[i := tmp])"

definition eliminateRow ::
  "nat \<Rightarrow> nat \<Rightarrow> nat \<Rightarrow> jsnum list list \<times> jsnum list \<Rightarrow> jsnum list list \<times> jsnum list" where
  "eliminateRow n i k AB =
     (let A = fst AB; B = snd AB;
          c = jdiv (jneg (getCell A k i)) (getCell A i i);
          A1 = fold (\<lambda>j M. if i = j then setCell M k j (Fin 0)
                             else setCell M k j (jadd (getCell M k j) (jmul c (getCell M i j))))
                 [i..<n] A;
          B1 = B[k := jadd (elemAt B k) (jmul c (elemAt B i))]
      in (A1, B1))"

definition eliminateColumn ::
  "nat \<Rightarrow> nat \<Rightarrow> jsnum list list \<times> jsnum list \<Rightarrow> jsnum list list \<times> jsnum list" where
  "eliminateColumn n i AB =
     (let A = fst AB; B = snd AB;
          maxRow = findPivot A n i;
          A1 = swapRows A n i maxRow;
          B1 = swapEntries B i maxRow
      in fold (eliminateRow n i) [Suc i..<n] (A1, B1))"

definition backSubstitute :: "nat \<Rightarrow> jsnum list list \<Rightarrow> jsnum list \<Rightarrow> jsnum list" where
  "backSubstitute n A B =
     fold (\<lambda>i x. let s = fold (\<lambda>j acc. jadd acc (jmul (getCell A i j) (elemAt x j)))
                            [Suc i..<n] (Fin 0)
                  in x[i := jdiv (jsub (elemAt B i) s) (getCell A i i)])
       (rev [0..<n]) (replicate n (Fin 0))"

definition solveLinearSystem :: "jsnum list list \<Rightarrow> jsnum list \<Rightarrow> jsnum list" where
  "solveLinearSystem A B =
     (let n = length B;
          AB = fold (eliminateColumn n) [0..<n] (A, B)
      in backSubstitute n (fst AB) (snd AB))"

section \<open>Statistical tests\<close>

definition calculateDurbinWatson :: "jsnum list \<Rightarrow> jsnum" where
  "calculateDurbinWatson residuals =
     (if length residuals < 2 then Fin 0
      else
        let num = fold (\<lambda>i acc. jadd acc (jpow (jsub (elemAt residuals i) (elemAt residuals (i - 1))) (Fin 2)))
                    [1..<length residuals] (Fin 0);
            den = fold (\<lambda>i acc. jadd acc (jpow (elemAt residuals i) (Fin 2)))
                    [0..<length residuals] (Fin 0)
        in if jeq den (Fin 0) then Fin 0 else jdiv num den)"

text \<open>
  The ranks of \<open>calculateSpearmanRank\<close>: the values are srt with their indices, and
  every run of equal values gets the mean of its positions.
\<close>

function tieEnd :: "(jsnum \<times> nat) list \<Rightarrow> nat \<Rightarrow> nat \<Rightarrow> nat" where
  "tieEnd srt n j =
     (if j + 1 < n \<and> jeq (fst (srt ! (j + 1))) (fst (srt ! j))
      then tieEnd srt n (j + 1) else j)"
  by pat_completeness auto
termination
  by (relation "measure (\<lambda>(srt, n, j). n - j)") auto

declare tieEnd.simps [simp del]

function rankLoop :: "(jsnum \<times> nat) list \<Rightarrow> nat \<Rightarrow> nat \<Rightarrow> jsnum list \<Rightarrow> jsnum list" where
  "rankLoop srt n i ranks =
     (if i < n then
        let j = tieEnd srt n i;
            rank = jadd (jdiv (ofNat (i + j)) (Fin 2)) (Fin 1);
            ranks1 = fold (\<lambda>k r. r[snd (srt ! k) := rank]) [i..<Suc j] ranks
        in rankLoop srt n (Suc j) ranks1
      else ranks)"
  by pat_completeness auto
termination
proof (relation "measure (\<lambda>(srt, n, i, ranks). n - i)")
  show "wf (measure (\<lambda>(srt, n, i, ranks). n - i))"
    by simp
next
  fix srt :: "(jsnum \<times> nat) list" and n i :: nat and ranks :: "jsnum list"
    and j rank ranks1
  assume "i < n" and j: "j = tieEnd srt n i"
  have "k \<le> tieEnd srt n k" for k
  proof (induction srt n k rule: tieEnd.induct)
    case (1 srt n j)
    show ?case
    proof (cases "j + 1 < n \<and> jeq (fst (srt ! (j + 1))) (fst (srt ! j))")
      case True
      then have "j + 1 \<le> tieEnd srt n (j + 1)" using 1 by simp
      moreover have "tieEnd srt n j = tieEnd srt n (j + 1)"
        using True by (subst tieEnd.simps) simp
      ultimately show ?thesis by simp
    next
      case False
      then have "tieEnd srt n j = j" by (subst tieEnd.simps) auto
      then show ?thesis by simp
    qed
  qed
  then have "i \<le> j" using j by simp
  then show "((srt, n, Suc j, ranks1), (srt, n, i, ranks))
               \<in> measure (\<lambda>(srt, n, i, ranks). n - i)"
    using \<open>i < n\<close> by auto
qed

declare rankLoop.simps [simp del]

definition getRanks :: "nat \<Rightarrow> jsnum list \<Rightarrow> jsnum list" where
  "getRanks n arr =
     (let srt = jsSortBy fst (zip arr [0..<length arr])
      in rankLoop srt n 0 (replicate n (Fin 0)))"

definition calculateSpearmanRank :: "jsnum list \<Rightarrow> jsnum list \<Rightarrow> ValidationStepResult" where
  "calculateSpearmanRank x y =
     (let n = length x in
      if n < 3 then \<lparr> passed = False, statisticValue = Fin 0, criticalValue = Fin 0,
                       isNotApplicable = False \<rparr>
      else
        let xRanks = getRanks n x;
            yRanks = getRanks n y;
            d2Sum = fold (\<lambda>i acc. jadd acc (jpow (jsub (elemAt xRanks i) (elemAt yRanks i)) (Fin 2)))
                      [0..<n] (Fin 0);
            rho = jsub (Fin 1) (jdiv (jmul (Fin 6) d2Sum)
                                  (jmul (ofNat n) (jsub (jmul (ofNat n) (ofNat n)) (Fin 1))));
            tCalc = jmul (jabs rho)
                      (jsqrt (jdiv (jsub (ofNat n) (Fin 2)) (jsub (Fin 1) (jmul rho rho))));
            tCrit = getTStudentCrit (jsub (ofNat n) (Fin 2))
        in \<lparr> passed = jgt tCalc tCrit, statisticValue = roundFixed 4 rho,
             criticalValue = tCrit, isNotApplicable = False \<rparr>)"

definition erf :: "jsnum \<Rightarrow> jsnum" where
  "erf x0 =
     (let a1 = Fin 0.254829592; a2 = Fin (- 0.284496736); a3 = Fin 1.421413741;
          a4 = Fin (- 1.453152027); a5 = Fin 1.061405429; p = Fin 0.3275911;
          sign = (if jlt x0 (Fin 0) then Fin (- 1) else Fin 1);
          x = jabs x0;
          t = jdiv (Fin 1) (jadd (Fin 1) (jmul p x));
          y = jsub (Fin 1)
                (jmul (jmul (jadd (jmul (jadd (jmul (jadd (jmul (jadd (jmul a5 t) a4) t) a3) t) a2) t) a1) t)
                      (jexp (jmul (jneg x) x)))
      in jmul sign y)"

definition normalCDF :: "jsnum \<Rightarrow> jsnum \<Rightarrow> jsnum \<Rightarrow> jsnum" where
  "normalCDF x mean std =
     (let z = jdiv (jsub x mean) (jmul std (Fin (sqrt 2)))
      in jmul (Fin 0.5) (jadd (Fin 1) (erf z)))"

definition clampCdf :: "jsnum \<Rightarrow> jsnum" where
  "clampCdf c0 =
     (let c1 = (if jle c0 (Fin 0) then Fin (1 / 10 ^ 15) else c0)
      in if jge c1 (Fin 1) then Fin (1 - 1 / 10 ^ 15) else c1)"

definition calculateAndersonDarling :: "jsnum list \<Rightarrow> ValidationStepResult" where
  "calculateAndersonDarling xs =
     (let n = length xs in
      if n < 3 then \<lparr> passed = False, statisticValue = Fin 0, criticalValue = Fin 0,
                       isNotApplicable = False \<rparr>
      else
        let mean = jdiv (jsum xs) (ofNat n);
            variance = jdiv (sumOf (\<lambda>b. jpow (jsub b mean) (Fin 2)) xs) (jsub (ofNat n) (Fin 1));
            std = jsqrt variance;
            srt = jsSort xs;
            total = fold (\<lambda>i acc.
                       let cdf_i = clampCdf (normalCDF (elemAt srt i) mean std);
                           cdf_rev = clampCdf (normalCDF (elemAt srt (n - 1 - i)) mean std)
                       in jadd acc (jmul (jsub (jmul (Fin 2) (ofNat (i + 1))) (Fin 1))
                                      (jadd (jlog cdf_i) (jlog (jsub (Fin 1) cdf_rev)))))
                     [0..<n] (Fin 0);
            A2 = jsub (jneg (ofNat n)) (jdiv total (ofNat n));
            A2_adj = jmul A2 (jadd (jadd (Fin 1) (jdiv (Fin 0.75) (ofNat n)))
                                   (jdiv (Fin 2.25) (jmul (ofNat n) (ofNat n))));
            crit = Fin 0.752
        in \<lparr> passed = jlt A2_adj crit, statisticValue = roundFixed 4 A2_adj,
             criticalValue = crit, isNotApplicable = False \<rparr>)"

definition calculateCorrelationSignificance :: "jsnum \<Rightarrow> nat \<Rightarrow> ValidationStepResult" where
  "calculateCorrelationSignificance r n =
     (if n < 3 then \<lparr> passed = False, statisticValue = Fin 0, criticalValue = Fin 0,
                       isNotApplicable = False \<rparr>
      else if jge (jabs r) (Fin 0.999999)
        then \<lparr> passed = True, statisticValue = Fin 999, criticalValue = Fin 0,
               isNotApplicable = False \<rparr>
      else
        let tCalc = jdiv (jmul (jabs r) (jsqrt (jsub (ofNat n) (Fin 2))))
                      (jsqrt (jsub (Fin 1) (jmul r r)));
            tCrit = getTStudentCrit (jsub (ofNat n) (Fin 2))
        in \<lparr> passed = jgt tCalc tCrit, statisticValue = roundFixed 4 tCalc,
             criticalValue = tCrit, isNotApplicable = False \<rparr>)"

definition calculateIndependenceTest :: "jsnum list \<Rightarrow> jsnum list \<Rightarrow> ValidationStepResult" where
  "calculateIndependenceTest yPred residuals =
     (let n = length yPred in
      if n < 3 then \<lparr> passed = False, statisticValue = Fin 0, criticalValue = Fin 0,
                       isNotApplicable = False \<rparr>
      else
        let meanY = jdiv (jsum yPred) (ofNat n);
            meanR = jdiv (jsum residuals) (ofNat n);
            num = fold (\<lambda>i acc. jadd acc (jmul (jsub (elemAt yPred i) meanY)
                                              (jsub (elemAt residuals i) meanR)))
                    [0..<n] (Fin 0);
            den1 = fold (\<lambda>i acc. jadd acc (jpow (jsub (elemAt yPred i) meanY) (Fin 2)))
                     [0..<n] (Fin 0);
            den2 = fold (\<lambda>i acc. jadd acc (jpow (jsub (elemAt residuals i) meanR) (Fin 2)))
                     [0..<n] (Fin 0);
            r = (if jgt den1 (Fin 0) \<and> jgt den2 (Fin 0) then jdiv num (jsqrt (jmul den1 den2))
                 else Fin 0);
            tCalc = jdiv (jmul (jabs r) (jsqrt (jsub (ofNat n) (Fin 2))))
                      (jsqrt (jor (jsub (Fin 1) (jmul r r)) (Fin 1)));
            tCrit = getTStudentCrit (jsub (ofNat n) (Fin 2))
        in \<lparr> passed = jlt tCalc tCrit, statisticValue = roundFixed 4 tCalc,
             criticalValue = tCrit, isNotApplicable = False \<rparr>)"

section \<open>Regression engine\<close>

text \<open>The sub-model choice of a flexible split: one family for each segment.\<close>

record ModelChoice =
  lowModel :: CurveModel
  highModel :: CurveModel

definition defaultChoice :: ModelChoice where
  "defaultChoice = \<lparr> lowModel = linear_pearson, highModel = linear_pearson \<rparr>"

text \<open>Domain filtering: the indices of \<open>x\<close> whose pair is compatible with the family.\<close>

definition validIndices :: "jsnum list \<Rightarrow> jsnum list \<Rightarrow> CurveModel \<Rightarrow> nat list" where
  "validIndices x y type =
     (if type = power \<or> type = logarithmic \<or> type = exponential then
        filter (\<lambda>i. \<not> (type = logarithmic \<and> jle (elemAt x i) (Fin 0))
                   \<and> \<not> (type = power \<and> (jle (elemAt x i) (Fin 0) \<or> jle (elemAt y i) (Fin 0)))
                   \<and> \<not> (type = exponential \<and> jle (elemAt y i) (Fin 0)))
          [0..<length x]
      else [0..<length x])"

text \<open>The result returned when fewer than three pairs survive the filter.\<close>

definition insufficientData :: RegressionResult where
  "insufficientData =
     \<lparr> coefficients = [Fin 0], rSquared = Fin 0, residualStdDev = Fin 0,
       extendedValidation = None, xBar = Fin 0, sumSqDiffX = Fin 1, nUsed = Fin 0,
       durbinWatson = Fin 0, anova = None, isParametricValid = False,
       aic = Fin 9999, aicc = Fin 9999, bic = Fin 9999, modelQuality = INVALID,
       recommendationText = Literal ''Datos Insuficientes'', subModels = None,
       isBestFit = None \<rparr>"

text \<open>The transformation to linear space.\<close>

definition transformX :: "CurveModel \<Rightarrow> jsnum list \<Rightarrow> jsnum list" where
  "transformX type xFiltered =
     (if type = power \<or> type = logarithmic then map jlog xFiltered else xFiltered)"

definition transformY :: "CurveModel \<Rightarrow> jsnum list \<Rightarrow> jsnum list" where
  "transformY type yFiltered =
     (if type = power \<or> type = exponential then map jlog yFiltered else yFiltered)"

text \<open>
  What each fitting branch leaves behind: the coefficients, the residuals, the
  predictions pushed to \<open>yPreds\<close>, and the parameter count.
\<close>

record RawFit =
  fitCoeffs :: "jsnum list"
  fitResiduals :: "jsnum list"
  fitPreds :: "jsnum list"
  numParams :: nat

definition fitPolynomial :: "CurveModel \<Rightarrow> jsnum list \<Rightarrow> jsnum list \<Rightarrow> RawFit" where
  "fitPolynomial type xCalc yCalc =
     (let order = (if type = polynomial_3rd then 3 else 2 :: nat);
          m = order + 1;
          XSums = map (\<lambda>i. sumOf (\<lambda>xi. jpow xi (ofNat i)) xCalc) [0..<2 * order + 1];
          YSums = map (\<lambda>i. sumOfIdx (\<lambda>xi idx. jmul (jpow xi (ofNat i)) (elemAt yCalc idx)) xCalc)
                    [0..<m];
          A = map (\<lambda>i. map (\<lambda>j. elemAt XSums (i + j)) [0..<m]) [0..<m];
          B = map (\<lambda>i. elemAt YSums i) [0..<m];
          coeffs = solveLinearSystem A B;
          preds = mapIdx (\<lambda>yi i. sumOfIdx (\<lambda>c p. jmul c (jpow (elemAt xCalc i) (ofNat p))) coeffs)
                    yCalc;
          residuals = mapIdx (\<lambda>yi i. jsub yi (elemAt preds i)) yCalc
      in \<lparr> fitCoeffs = coeffs, fitResiduals = residuals, fitPreds = preds, numParams = order + 1 \<rparr>)"

text \<open>The pairwise slopes of the Theil-Sen branch, in the order the two loops push them.\<close>

definition pairwiseSlopes :: "jsnum list \<Rightarrow> jsnum list \<Rightarrow> jsnum list" where
  "pairwiseSlopes xCalc yCalc =
     concat (map (\<lambda>i. concat (map (\<lambda>j.
         if jne (elemAt xCalc j) (elemAt xCalc i)
         then [jdiv (jsub (elemAt yCalc j) (elemAt yCalc i)) (jsub (elemAt xCalc j) (elemAt xCalc i))]
         else []) [Suc i..<length xCalc])) [0..<length xCalc])"

text \<open>
  The Theil-Sen branch. With no pair of distinct abscissas \<open>slopes\<close> is empty, its middle
  element is \<open>undefined\<close>, and the branch ends in the \<open>TypeError\<close> of calling
  \<open>toExponential\<close> on it when the equation string is built.
\<close>

definition fitTheilSen :: "jsnum list \<Rightarrow> jsnum list \<Rightarrow> jserror + RawFit" where
  "fitTheilSen xCalc yCalc =
     (let slopes = jsSort (pairwiseSlopes xCalc yCalc) in
      if slopes = [] then Inl TypeError
      else
        let slope = elemAt slopes (length slopes div 2);
            intercepts = jsSort (mapIdx (\<lambda>yv i. jsub yv (jmul slope (elemAt xCalc i))) yCalc);
            intercept = elemAt intercepts (length intercepts div 2);
            preds = mapIdx (\<lambda>yi i. jadd intercept (jmul slope (elemAt xCalc i))) yCalc;
            residuals = mapIdx (\<lambda>yi i. jsub yi (elemAt preds i)) yCalc
        in Inr \<lparr> fitCoeffs = [intercept, slope], fitResiduals = residuals, fitPreds = preds,
                 numParams = 2 \<rparr>)"

definition fitLeastSquares :: "CurveModel \<Rightarrow> jsnum list \<Rightarrow> jsnum list \<Rightarrow> RawFit" where
  "fitLeastSquares type xCalc yCalc =
     (let n = ofNat (length xCalc);
          sumX = jsum xCalc;
          sumY = jsum yCalc;
          sumXY = sumOfIdx (\<lambda>xi i. jmul xi (elemAt yCalc i)) xCalc;
          sumXX = sumOf (\<lambda>xi. jmul xi xi) xCalc;
          slope = jdiv (jsub (jmul n sumXY) (jmul sumX sumY))
                       (jsub (jmul n sumXX) (jmul sumX sumX));
          intercept = jdiv (jsub sumY (jmul slope sumX)) n;
          c0 = (if type = power \<or> type = exponential then jexp intercept else intercept);
          preds = mapIdx (\<lambda>yi i. jadd intercept (jmul slope (elemAt xCalc i))) yCalc;
          residuals = mapIdx (\<lambda>yi i. jsub yi (elemAt preds i)) yCalc
      in \<lparr> fitCoeffs = [c0, slope], fitResiduals = residuals, fitPreds = preds, numParams = 2 \<rparr>)"

definition standardFit :: "CurveModel \<Rightarrow> jsnum list \<Rightarrow> jsnum list \<Rightarrow> jserror + RawFit" where
  "standardFit type xCalc yCalc =
     (if type = polynomial_2nd \<or> type = polynomial_3rd then Inr (fitPolynomial type xCalc yCalc)
      else if type = linear_theil_sen then fitTheilSen xCalc yCalc
      else Inr (fitLeastSquares type xCalc yCalc))"

definition notApplicable :: ValidationStepResult where
  "notApplicable = \<lparr> passed = True, statisticValue = Fin 0, criticalValue = Fin 0,
                       isNotApplicable = True \<rparr>"

text \<open>
  The statistics, the validation record and the verdict of a standard model, from the
  fit and from the Mandel test when it was run.
\<close>

definition standardResult ::
  "CurveModel \<Rightarrow> jsnum list \<Rightarrow> jsnum list \<Rightarrow> RawFit \<Rightarrow> ValidationStepResult option
     \<Rightarrow> RegressionResult" where
  "standardResult type xCalc yCalc fit mandel =
     (let n = length xCalc;
          isNonParametric = (type = linear_theil_sen);
          residuals = fitResiduals fit;
          ssRes = sumOf (\<lambda>r. jmul r r) residuals;
          meanY = jdiv (jsum yCalc) (ofNat n);
          ssTot = sumOf (\<lambda>yi. jpow (jsub yi meanY) (Fin 2)) yCalc;
          r2 = jsub (Fin 1) (jdiv ssRes (jor ssTot (Fin 1)));
          dfResidual = jsub (ofNat n) (ofNat (numParams fit));
          sRes = jsqrt (jdiv ssRes (if jgt dfResidual (Fin 0) then dfResidual else Fin 1));
          ssReg = jsub ssTot ssRes;
          dfRegression = jsub (ofNat (numParams fit)) (Fin 1);
          msRegression = jdiv ssReg (jor dfRegression (Fin 1));
          msResidual = jdiv ssRes (jor dfResidual (Fin 1));
          fCalc = jdiv msRegression msResidual;
          fCrit = getFCrit dfResidual dfRegression;
          dw = calculateDurbinWatson residuals;
          ic = calculateAIC (ofNat n) (ofNat (numParams fit + 1)) ssRes;
          isValid = (if isNonParametric then True else jgt fCalc fCrit);
          validation =
            \<lparr> correlation = (if isNonParametric then calculateSpearmanRank xCalc yCalc
                              else calculateCorrelationSignificance (jsqrt r2) n),
              normalityX = (if isNonParametric then notApplicable
                            else calculateAndersonDarling xCalc),
              normalityY = (if isNonParametric then notApplicable
                            else calculateAndersonDarling yCalc),
              normalityResiduals = (if isNonParametric then notApplicable
                                    else calculateAndersonDarling residuals),
              modelSignificance =
                (if isNonParametric then notApplicable
                 else \<lparr> passed = jgt fCalc fCrit, statisticValue = roundFixed 4 fCalc,
                        criticalValue = fCrit, isNotApplicable = False \<rparr>),
              independence = (if isNonParametric then notApplicable
                              else calculateIndependenceTest (fitPreds fit) residuals),
              mandelLinearity = mandel \<rparr>;
          verdict =
            (if isNonParametric then
               (if \<not> passed (correlation validation)
                then (POOR, Literal ''Correlacion de rangos no significativa.'')
                else (GOOD, Literal
                  ''Modelo robusto no parametrico. Supuestos de normalidad no requeridos.''))
             else if \<not> passed (modelSignificance validation)
               then (INVALID, Literal ''El modelo no es significativo (F-Test).'')
             else if (case mandel of Some m \<Rightarrow> \<not> passed m | None \<Rightarrow> False)
               then (POOR, Literal ''Test de Mandel sugiere no linealidad.'')
             else if jgt r2 (Fin 0.999) then (EXCELLENT, Literal ''Modelo valido.'')
             else (GOOD, Literal ''Modelo valido.''));
          mean = jdiv (jsum xCalc) (ofNat n);
          sxx = sumOf (\<lambda>xi. jpow (jsub xi mean) (Fin 2)) xCalc
      in \<lparr> coefficients = fitCoeffs fit, rSquared = r2, residualStdDev = sRes,
           extendedValidation = Some validation, xBar = mean, sumSqDiffX = sxx,
           nUsed = ofNat n, durbinWatson = dw,
           anova = Some \<lparr> sse = ssRes, ssr = ssReg, sst = ssTot, dfReg = dfRegression,
                          dfRes = dfResidual, msReg = msRegression, msRes = msResidual,
                          fStatistic = fCalc \<rparr>,
           isParametricValid = isValid,
           aic = fst ic, aicc = fst (snd ic), bic = snd (snd ic),
           modelQuality = fst verdict, recommendationText = snd verdict,
           subModels = None, isBestFit = None \<rparr>)"

text \<open>
  The flexible split: the two index bounds of the overlap (for \<open>n > 4\<close>), and the result
  assembled from the fits \<open>r1\<close> and \<open>r2\<close> of the two segments.
\<close>

definition splitBounds :: "nat \<Rightarrow> int \<times> int" where
  "splitBounds n =
     (let mid = int n div 2;
          endIdx1 = mid + 1;
          startIdx2 = mid - 1;
          startIdx2 = (if startIdx2 < 0 then 0 else startIdx2);
          endIdx1 = (if int n \<le> endIdx1 then int n - 1 else endIdx1);
          endIdx1 = (if endIdx1 < 2 then 2 else endIdx1);
          startIdx2 = (if int n - 3 < startIdx2 then int n - 3 else startIdx2)
      in (startIdx2, endIdx1))"

definition mixedResult ::
  "jsnum list \<Rightarrow> jsnum list \<Rightarrow> int \<Rightarrow> int \<Rightarrow> CurveModel \<Rightarrow> CurveModel
     \<Rightarrow> RegressionResult \<Rightarrow> RegressionResult \<Rightarrow> RegressionResult" where
  "mixedResult xFiltered yFiltered startIdx2 endIdx1 type1 type2 r1 r2 =
     (let n = length xFiltered;
          splitStart = elemAt xFiltered (nat startIdx2);
          splitEnd = elemAt xFiltered (nat endIdx1);
          globalMean = jdiv (jsum yFiltered) (ofNat n);
          totals = fold (\<lambda>p acc.
                    let yi = fst p;
                        xi = elemAt xFiltered (snd p);
                        yPred =
                          (if jle xi splitStart then predictValue xi type1 (coefficients r1) None
                           else if jge xi splitEnd then predictValue xi type2 (coefficients r2) None
                           else
                             let y1p = predictValue xi type1 (coefficients r1) None;
                                 y2p = predictValue xi type2 (coefficients r2) None;
                                 alpha = jdiv (jsub xi splitStart) (jsub splitEnd splitStart)
                             in jadd (jmul (jsub (Fin 1) alpha) y1p) (jmul alpha y2p))
                    in (jadd (fst acc) (jpow (jsub yi globalMean) (Fin 2)),
                        jadd (snd acc) (jpow (jsub yi yPred) (Fin 2))))
                   (zip yFiltered [0..<length yFiltered]) (Fin 0, Fin 0);
          ssTot = fst totals;
          ssRes = snd totals;
          r2v = jsub (Fin 1) (jdiv ssRes (jor ssTot (Fin 1)));
          k_split = length (coefficients r1) + length (coefficients r2) + 1;
          ic = calculateAIC (ofNat n) (ofNat k_split) ssRes
      in \<lparr> coefficients = [], rSquared = r2v,
           residualStdDev = jsqrt (jdiv ssRes (jsub (ofNat n) (Fin 4))),
           extendedValidation = None, xBar = Fin 0, sumSqDiffX = Fin 0, nUsed = ofNat n,
           durbinWatson = Fin 2, anova = None, isParametricValid = True,
           aic = fst ic, aicc = fst (snd ic), bic = snd (snd ic),
           modelQuality = (if jgt r2v (Fin 0.99) then EXCELLENT else GOOD),
           recommendationText = Literal ''Modelo optimizado flexible (Mixed Split).'',
           subModels = Some \<lparr> low = \<lparr> segType = type1, segCoeffs = coefficients r1,
                                        segLimit = splitEnd \<rparr>,
                               high = \<lparr> segType = type2, segCoeffs = coefficients r2,
                                         segLimit = splitStart \<rparr> \<rparr>,
           isBestFit = None \<rparr>)"

text \<open>The verdict of the Mandel test from the two residual sums of squares.\<close>

definition mandelVerdict :: "nat \<Rightarrow> jsnum \<Rightarrow> jsnum \<Rightarrow> ValidationStepResult" where
  "mandelVerdict n ssResLin ssResQuad =
     (let dfQuad = jsub (ofNat n) (Fin 3);
          diffSS = jsub ssResLin ssResQuad;
          msDiff = jdiv diffSS (Fin 1);
          msQuad = jdiv ssResQuad dfQuad
      in if jlt msQuad (Fin (1 / 10 ^ 15))
         then \<lparr> passed = False, statisticValue = Fin 9999, criticalValue = getFCrit dfQuad (Fin 1),
                isNotApplicable = False \<rparr>
         else
           let fCalc = jdiv msDiff msQuad;
               fCrit = getFCrit dfQuad (Fin 1)
           in \<lparr> passed = jle fCalc fCrit, statisticValue = roundFixed 4 fCalc,
                criticalValue = fCrit, isNotApplicable = False \<rparr>)"

definition sseOrZero :: "RegressionResult \<Rightarrow> jsnum" where
  "sseOrZero reg = (case anova reg of Some a \<Rightarrow> sse a | None \<Rightarrow> Fin 0)"

text \<open>
  \<open>calculateRegression\<close> and \<open>calculateMandelTest\<close> call each other: the Mandel test fits a
  line (with its own Mandel test switched off) and a parabola, and a linear fit of four or
  more points runs the Mandel test unless told to skip it. A result is \<open>Inr\<close>; \<open>Inl\<close> is an
  exception that leaves the function.
\<close>

function calculateRegression ::
    "jsnum list \<Rightarrow> jsnum list \<Rightarrow> CurveModel \<Rightarrow> bool \<Rightarrow> ModelChoice \<Rightarrow> bool
       \<Rightarrow> jserror + RegressionResult"
  and calculateMandelTest :: "jsnum list \<Rightarrow> jsnum list \<Rightarrow> jserror + ValidationStepResult" where
  "calculateRegression x y type isUncertaintyModel choice skipMandel =
     (let idx = validIndices x y type;
          xFiltered = map (elemAt x) idx;
          yFiltered = map (elemAt y) idx;
          n = length xFiltered
      in if n < 3 then Inr insufficientData
         else if type = piecewise_mixed then
           (if n \<le> 4
            then calculateRegression x y linear_pearson isUncertaintyModel defaultChoice False
            else
              let startIdx2 = fst (splitBounds n);
                  endIdx1 = snd (splitBounds n);
                  x1 = take (nat (endIdx1 + 1)) xFiltered;
                  y1 = take (nat (endIdx1 + 1)) yFiltered;
                  x2 = drop (nat startIdx2) xFiltered;
                  y2 = drop (nat startIdx2) yFiltered;
                  type1 = (if lowModel choice = piecewise_mixed then linear_pearson
                           else lowModel choice);
                  type2 = (if highModel choice = piecewise_mixed then linear_pearson
                           else highModel choice)
              in case calculateRegression x1 y1 type1 isUncertaintyModel defaultChoice True of
                   Inl e \<Rightarrow> Inl e
                 | Inr r1 \<Rightarrow>
                    (case calculateRegression x2 y2 type2 isUncertaintyModel defaultChoice True of
                       Inl e \<Rightarrow> Inl e
                     | Inr r2 \<Rightarrow>
                         Inr (mixedResult xFiltered yFiltered startIdx2 endIdx1 type1 type2 r1 r2)))
         else
           let xCalc = transformX type xFiltered;
               yCalc = transformY type yFiltered
           in case standardFit type xCalc yCalc of
                Inl e \<Rightarrow> Inl e
              | Inr fit \<Rightarrow>
                  if type = linear_pearson \<and> 4 \<le> n \<and> \<not> skipMandel
                  then (case calculateMandelTest xFiltered yFiltered of
                          Inl e \<Rightarrow> Inl e
                        | Inr m \<Rightarrow> Inr (standardResult type xCalc yCalc fit (Some m)))
                  else Inr (standardResult type xCalc yCalc fit None))"
| "calculateMandelTest x y =
     (let n = length x in
      if n < 4 then Inr \<lparr> passed = True, statisticValue = Fin 0, criticalValue = Fin 0,
                           isNotApplicable = False \<rparr>
      else case calculateRegression x y linear_pearson False defaultChoice True of
             Inl e \<Rightarrow> Inl e
           | Inr regLin \<Rightarrow>
              (case calculateRegression x y polynomial_2nd False defaultChoice False of
                 Inl e \<Rightarrow> Inl e
               | Inr regQuad \<Rightarrow> Inr (mandelVerdict n (sseOrZero regLin) (sseOrZero regQuad))))"
  by pat_completeness auto
termination
  by (relation "measure (\<lambda>v. case v of
         Inl (x, y, type, isUncertaintyModel, choice, skipMandel) \<Rightarrow>
           (if type = piecewise_mixed then 3
            else if type = linear_pearson \<and> \<not> skipMandel then 2 else 0)
       | Inr (x, y) \<Rightarrow> 1)") auto

declare calculateRegression.simps [simp del]
declare calculateMandelTest.simps [simp del]

section \<open>Model selection\<close>

text \<open>
  A calibration point of a reference standard. Of the source's fields the ones the engine
  reads are kept; the nominal value, the identifier, the confidence level and the
  distribution shape are not read by it.
\<close>

record StandardCalibrationPoint =
  indication :: jsnum
  referenceValue :: jsnum
  uncertainty :: jsnum
  coverageFactor :: jsnum

text \<open>
  The loop over the two reference families: the least AICc among the candidates that are
  parametrically valid and not \<open>INVALID\<close>, starting from \<open>Infinity\<close>.
\<close>

definition candidateStep ::
  "jsnum list \<Rightarrow> jsnum list \<Rightarrow> CurveModel \<Rightarrow> jserror + jsnum \<Rightarrow> jserror + jsnum" where
  "candidateStep xVal yVal m acc =
     (case acc of
        Inl e \<Rightarrow> Inl e
      | Inr minAICc \<Rightarrow>
         (case calculateRegression xVal yVal m False defaultChoice False of
            Inl e \<Rightarrow> Inl e
          | Inr reg \<Rightarrow>
              if isParametricValid reg \<and> modelQuality reg \<noteq> INVALID
              then (if jlt (aicc reg) minAICc then Inr (aicc reg) else Inr minAICc)
              else Inr minAICc))"

definition referenceMinAICc :: "jsnum list \<Rightarrow> jsnum list \<Rightarrow> jserror + jsnum" where
  "referenceMinAICc xVal yVal =
     fold (candidateStep xVal yVal) [linear_pearson, polynomial_2nd] (Inr PInf)"

text \<open>\<open>text || fallback\<close> on recommendation texts.\<close>

definition textOr :: "message \<Rightarrow> message \<Rightarrow> message" where
  "textOr a b = (if textTruthy a then a else b)"

definition markBestFit :: "CurveModel \<Rightarrow> jsnum \<Rightarrow> RegressionResult \<Rightarrow> RegressionResult" where
  "markBestFit valModel minAICc valueReg =
     (if isParametricValid valueReg \<and> valModel \<noteq> piecewise_mixed \<and> valModel \<noteq> linear_theil_sen
      then
        let valDeltaAIC = jsub (aicc valueReg) minAICc in
        if jle valDeltaAIC (Fin 4) \<and> jgt (rSquared valueReg) (Fin 0.95)
        then valueReg \<lparr> isBestFit := Some True,
               recommendationText := textOr (recommendationText valueReg)
                 (Literal ''MODELO ESTADISTICAMENTE ROBUSTO.'') \<rparr>
        else valueReg \<lparr> isBestFit := Some False,
               recommendationText := textOr (recommendationText valueReg)
                 (BetterFitsExist valDeltaAIC) \<rparr>
      else valueReg)"

definition fitStandardModels ::
  "StandardCalibrationPoint list \<Rightarrow> CurveModel \<Rightarrow> CurveModel \<Rightarrow> ModelChoice \<Rightarrow> ModelChoice
     \<Rightarrow> jserror + RegressionResult \<times> RegressionResult" where
  "fitStandardModels points valModel uncModel valSubModels uncSubModels =
     (let xVal = map indication points;
          yVal = map referenceValue points
      in case referenceMinAICc xVal yVal of
           Inl e \<Rightarrow> Inl e
         | Inr minAICc \<Rightarrow>
            (case calculateRegression xVal yVal valModel False valSubModels False of
               Inl e \<Rightarrow> Inl e
             | Inr valueReg0 \<Rightarrow>
                 let valueReg = markBestFit valModel minAICc valueReg0;
                     xUnc = map referenceValue points;
                     yUnc = map (\<lambda>p. jdiv (uncertainty p) (jor (coverageFactor p) (Fin 2))) points
                 in case calculateRegression xUnc yUnc uncModel True uncSubModels False of
                      Inl e \<Rightarrow> Inl e
                    | Inr uncReg \<Rightarrow> Inr (valueReg, uncReg)))"

section \<open>Calibration results\<close>

datatype SequenceType = SeqA | SeqB | SeqC









section \<open>The regression engine on an explicit store\<close>

text \<open>
  The arrays of the engine as the cells of a store, to follow which array each statement
  creates and which array it writes to. An address is an index into the store. \<open>alloc\<close>
  appends a new cell: an array literal, \<open>new Array(n).fill(0)\<close>, \<open>Array.from\<close>, and the results
  of \<open>map\<close>, \<open>filter\<close>, \<open>slice\<close> and of a spread copy. \<open>put\<close> overwrites a cell in place: an
  indexed assignment, \<open>push\<close> and \<open>sort\<close>. A cell holds numbers, the indices of
  \<open>validIndices\<close>, the value-index pairs that \<open>getRanks\<close> sorts, or the addresses of the rows
  of a matrix. Reading an address that holds no array of the expected kind gives the empty
  array. The numbers are computed by the functions above; what this section adds is where
  they are stored.
\<close>

type_synonym addr = nat

datatype cell =
    NumArr "jsnum list"
  | IdxArr "int list"
  | PairArr "(jsnum \<times> nat) list"
  | RowArr "addr list"

type_synonym store = "cell list"

definition alloc :: "cell \<Rightarrow> store \<Rightarrow> addr \<times> store" where
  "alloc c h = (length h, h @ [c])"

definition put :: "addr \<Rightarrow> cell \<Rightarrow> store \<Rightarrow> store" where
  "put a c h = h[a := c]"

definition nums :: "store \<Rightarrow> addr \<Rightarrow> jsnum list" where
  "nums h a = (if a < length h then (case h ! a of NumArr xs \<Rightarrow> xs | _ \<Rightarrow> []) else [])"

definition idxs :: "store \<Rightarrow> addr \<Rightarrow> int list" where
  "idxs h a = (if a < length h then (case h ! a of IdxArr xs \<Rightarrow> xs | _ \<Rightarrow> []) else [])"

definition pairs :: "store \<Rightarrow> addr \<Rightarrow> (jsnum \<times> nat) list" where
  "pairs h a = (if a < length h then (case h ! a of PairArr xs \<Rightarrow> xs | _ \<Rightarrow> []) else [])"

text \<open>
  The matrix of the normal equations: \<open>Array.from({ length: m }, () => new Array(m).fill(0))\<close>
  creates the \<open>m\<close> rows one after the other; \<open>writeRows\<close> stores new contents in the rows, as
  the assignments \<open>A[i][j] = ...\<close> do. \<open>pushAll\<close> is a sequence of \<open>push\<close> on one array.
\<close>

definition writeRows :: "addr list \<Rightarrow> jsnum list list \<Rightarrow> store \<Rightarrow> store" where
  "writeRows rows contents h = fold (\<lambda>p g. put (fst p) (NumArr (snd p)) g) (zip rows contents) h"

definition rowStep :: "nat \<Rightarrow> nat \<Rightarrow> addr list \<times> store \<Rightarrow> addr list \<times> store" where
  "rowStep w i p = (let a = alloc (NumArr (replicate w (Fin 0))) (snd p) in (fst p @ [fst a], snd a))"

definition allocRows :: "nat \<Rightarrow> nat \<Rightarrow> store \<Rightarrow> addr list \<times> store" where
  "allocRows m w h = fold (rowStep w) [0..<m] ([], h)"

definition pushAll :: "addr \<Rightarrow> jsnum list \<Rightarrow> store \<Rightarrow> store" where
  "pushAll a vs h = put a (NumArr (nums h a @ vs)) h"

text \<open>
  The data filter at the head of \<open>calculateRegression\<close>: \<open>validIndices\<close> is \<open>x.map((_, i) => i)\<close>
  and, for the three families with a domain, the result of a second \<open>map\<close> that marks the
  excluded indices with \<open>-1\<close>, followed by \<open>filter\<close>; \<open>xFiltered\<close> and \<open>yFiltered\<close> are two
  more \<open>map\<close> results. The input arrays are read only. The addresses of \<open>xFiltered\<close> and
  \<open>yFiltered\<close> are returned.
\<close>

definition filterOnStore :: "addr \<Rightarrow> addr \<Rightarrow> CurveModel \<Rightarrow> store \<Rightarrow> (addr \<times> addr) \<times> store" where
  "filterOnStore ax ay type h =
     (let a0 = alloc (IdxArr (map int [0..<length (nums h ax)])) h;
          a1 = (if type = power \<or> type = logarithmic \<or> type = exponential then
                  let marked = alloc (IdxArr (map (\<lambda>i.
                          if type = logarithmic \<and> jle (elemAt (nums (snd a0) ax) i) (Fin 0) then - 1
                          else if type = power \<and> (jle (elemAt (nums (snd a0) ax) i) (Fin 0)
                                   \<or> jle (elemAt (nums (snd a0) ay) i) (Fin 0)) then - 1
                          else if type = exponential \<and> jle (elemAt (nums (snd a0) ay) i) (Fin 0) then - 1
                          else int i) [0..<length (nums (snd a0) ax)])) (snd a0)
                  in alloc (IdxArr (filter (\<lambda>i. i \<noteq> - 1) (idxs (snd marked) (fst marked)))) (snd marked)
                else a0);
          aX = alloc (NumArr (map (\<lambda>i. elemAt (nums (snd a1) ax) (nat i)) (idxs (snd a1) (fst a1)))) (snd a1);
          aY = alloc (NumArr (map (\<lambda>i. elemAt (nums (snd aX) ay) (nat i)) (idxs (snd aX) (fst a1)))) (snd aX)
      in ((fst aX, fst aY), snd aY))"

text \<open>
  \<open>solveLinearSystem\<close> eliminates in place, in the rows of \<open>A\<close> and in \<open>B\<close>, and returns a new
  array \<open>x\<close> that it fills from the back. The matrix is passed as the addresses of its rows.
\<close>

definition solveLinearSystemOnStore :: "addr list \<Rightarrow> addr \<Rightarrow> store \<Rightarrow> addr \<times> store" where
  "solveLinearSystemOnStore rows aB h =
     (let n = length (nums h aB);
          AB = fold (eliminateColumn n) [0..<n] (map (nums h) rows, nums h aB);
          h1 = writeRows rows (fst AB) h;
          h2 = put aB (NumArr (snd AB)) h1;
          aX = alloc (NumArr (replicate n (Fin 0))) h2;
          h3 = put (fst aX)
                 (NumArr (backSubstitute n (map (nums (snd aX)) rows) (nums (snd aX) aB))) (snd aX)
      in (fst aX, h3))"

text \<open>
  The end of each fitting branch: \<open>residuals = yCalc.map(...)\<close>, whose callback pushes each
  prediction to \<open>yPreds\<close>. The address of the new \<open>residuals\<close> array is returned.
\<close>

definition residualsOnStore :: "jsnum list \<Rightarrow> addr \<Rightarrow> addr \<Rightarrow> store \<Rightarrow> addr \<times> store" where
  "residualsOnStore preds ayC aPreds h =
     (let h1 = pushAll aPreds preds h
      in alloc (NumArr (mapIdx (\<lambda>yi i. jsub yi (elemAt (nums h1 aPreds) i)) (nums h1 ayC))) h1)"

text \<open>
  The polynomial branch: the arrays \<open>XSums\<close> and \<open>YSums\<close>, created filled with zeros and then
  assigned; the matrix \<open>A\<close> and the vector \<open>B\<close>, created filled with zeros and then assigned;
  the solution of the system; the residuals.
\<close>

definition powerSumsOnStore :: "nat \<Rightarrow> addr \<Rightarrow> addr \<Rightarrow> store \<Rightarrow> (addr \<times> addr) \<times> store" where
  "powerSumsOnStore order axC ayC h =
     (let aXS = alloc (NumArr (replicate (2 * order + 1) (Fin 0))) h;
          h1 = put (fst aXS)
                 (NumArr (map (\<lambda>i. sumOf (\<lambda>xi. jpow xi (ofNat i)) (nums (snd aXS) axC))
                            [0..<2 * order + 1])) (snd aXS);
          aYS = alloc (NumArr (replicate (order + 1) (Fin 0))) h1;
          h2 = put (fst aYS)
                 (NumArr (map (\<lambda>i. sumOfIdx (\<lambda>xi idx. jmul (jpow xi (ofNat i))
                                                   (elemAt (nums (snd aYS) ayC) idx))
                                      (nums (snd aYS) axC)) [0..<order + 1])) (snd aYS)
      in ((fst aXS, fst aYS), h2))"

definition normalEquationsOnStore ::
  "nat \<Rightarrow> addr \<Rightarrow> addr \<Rightarrow> store \<Rightarrow> (addr list \<times> addr) \<times> store" where
  "normalEquationsOnStore m aXS aYS h =
     (let rows = allocRows m m h;
          aA = alloc (RowArr (fst rows)) (snd rows);
          aB = alloc (NumArr (replicate m (Fin 0))) (snd aA);
          h1 = writeRows (fst rows)
                 (map (\<lambda>i. map (\<lambda>j. elemAt (nums (snd aB) aXS) (i + j)) [0..<m]) [0..<m])
                 (snd aB);
          h2 = put (fst aB) (NumArr (map (\<lambda>i. elemAt (nums h1 aYS) i) [0..<m])) h1
      in ((fst rows, fst aB), h2))"

definition fitPolynomialOnStore ::
  "CurveModel \<Rightarrow> addr \<Rightarrow> addr \<Rightarrow> addr \<Rightarrow> store \<Rightarrow> (RawFit \<times> addr) \<times> store" where
  "fitPolynomialOnStore type axC ayC aPreds h =
     (let order = (if type = polynomial_3rd then 3 else 2 :: nat);
          ps = powerSumsOnStore order axC ayC h;
          ne = normalEquationsOnStore (order + 1) (fst (fst ps)) (snd (fst ps)) (snd ps);
          sol = solveLinearSystemOnStore (fst (fst ne)) (snd (fst ne)) (snd ne);
          coeffs = nums (snd sol) (fst sol);
          preds = mapIdx (\<lambda>yi i. sumOfIdx (\<lambda>c p. jmul c (jpow (elemAt (nums (snd sol) axC) i) (ofNat p)))
                                    coeffs) (nums (snd sol) ayC);
          aRes = residualsOnStore preds ayC aPreds (snd sol)
      in ((\<lparr> fitCoeffs = coeffs, fitResiduals = nums (snd aRes) (fst aRes),
              fitPreds = nums (snd aRes) aPreds, numParams = order + 1 \<rparr>, fst aRes), snd aRes))"

text \<open>
  The Theil-Sen branch: \<open>slopes\<close> is created empty, filled by \<open>push\<close> and sorted in place;
  \<open>intercepts\<close> is a \<open>map\<close> result, sorted in place; \<open>coeffs\<close> is an array literal.
\<close>

definition sortedSlopesOnStore :: "addr \<Rightarrow> addr \<Rightarrow> store \<Rightarrow> addr \<times> store" where
  "sortedSlopesOnStore axC ayC h =
     (let aS = alloc (NumArr []) h;
          h1 = pushAll (fst aS) (pairwiseSlopes (nums (snd aS) axC) (nums (snd aS) ayC)) (snd aS);
          h2 = put (fst aS) (NumArr (jsSort (nums h1 (fst aS)))) h1
      in (fst aS, h2))"

definition sortedInterceptsOnStore :: "jsnum \<Rightarrow> addr \<Rightarrow> addr \<Rightarrow> store \<Rightarrow> addr \<times> store" where
  "sortedInterceptsOnStore slope axC ayC h =
     (let aI = alloc (NumArr (mapIdx (\<lambda>yv i. jsub yv (jmul slope (elemAt (nums h axC) i)))
                                (nums h ayC))) h;
          h1 = put (fst aI) (NumArr (jsSort (nums (snd aI) (fst aI)))) (snd aI)
      in (fst aI, h1))"

definition fitTheilSenOnStore ::
  "addr \<Rightarrow> addr \<Rightarrow> addr \<Rightarrow> store \<Rightarrow> (jserror + RawFit \<times> addr) \<times> store" where
  "fitTheilSenOnStore axC ayC aPreds h =
     (let sl = sortedSlopesOnStore axC ayC h;
          slopes = nums (snd sl) (fst sl);
          slope = elemAt slopes (length slopes div 2);
          ic = sortedInterceptsOnStore slope axC ayC (snd sl);
          intercepts = nums (snd ic) (fst ic);
          intercept = elemAt intercepts (length intercepts div 2);
          aCo = alloc (NumArr [intercept, slope]) (snd ic);
          preds = mapIdx (\<lambda>yi i. jadd intercept (jmul slope (elemAt (nums (snd aCo) axC) i)))
                    (nums (snd aCo) ayC);
          aRes = residualsOnStore preds ayC aPreds (snd aCo)
      in (if slopes = [] then Inl TypeError
          else Inr (\<lparr> fitCoeffs = nums (snd aRes) (fst aCo),
                      fitResiduals = nums (snd aRes) (fst aRes),
                      fitPreds = nums (snd aRes) aPreds, numParams = 2 \<rparr>, fst aRes),
          snd aRes))"

text \<open>
  The least-squares branch: \<open>coeffs = [intercept, slope]\<close>, with \<open>coeffs[0]\<close> overwritten for
  the power and exponential families.
\<close>

definition coefficientsOnStore :: "CurveModel \<Rightarrow> jsnum \<Rightarrow> jsnum \<Rightarrow> store \<Rightarrow> addr \<times> store" where
  "coefficientsOnStore type intercept slope h =
     (let aCo = alloc (NumArr [intercept, slope]) h
      in if type = power \<or> type = exponential
         then (fst aCo, put (fst aCo) (NumArr ((nums (snd aCo) (fst aCo))[0 := jexp intercept])) (snd aCo))
         else aCo)"

definition fitLeastSquaresOnStore ::
  "CurveModel \<Rightarrow> addr \<Rightarrow> addr \<Rightarrow> addr \<Rightarrow> store \<Rightarrow> (RawFit \<times> addr) \<times> store" where
  "fitLeastSquaresOnStore type axC ayC aPreds h =
     (let xCalc = nums h axC;
          yCalc = nums h ayC;
          n = ofNat (length xCalc);
          sumX = jsum xCalc;
          sumY = jsum yCalc;
          sumXY = sumOfIdx (\<lambda>xi i. jmul xi (elemAt yCalc i)) xCalc;
          sumXX = sumOf (\<lambda>xi. jmul xi xi) xCalc;
          slope = jdiv (jsub (jmul n sumXY) (jmul sumX sumY))
                       (jsub (jmul n sumXX) (jmul sumX sumX));
          intercept = jdiv (jsub sumY (jmul slope sumX)) n;
          aCo = coefficientsOnStore type intercept slope h;
          preds = mapIdx (\<lambda>yi i. jadd intercept (jmul slope (elemAt (nums (snd aCo) axC) i)))
                    (nums (snd aCo) ayC);
          aRes = residualsOnStore preds ayC aPreds (snd aCo)
      in ((\<lparr> fitCoeffs = nums (snd aRes) (fst aCo), fitResiduals = nums (snd aRes) (fst aRes),
              fitPreds = nums (snd aRes) aPreds, numParams = 2 \<rparr>, fst aRes), snd aRes))"

text \<open>
  The head of the standard models: the three empty arrays \<open>coeffs\<close>, \<open>residuals\<close> and
  \<open>yPreds\<close>, the spread copies \<open>xCalc = [...xFiltered]\<close> and \<open>yCalc = [...yFiltered]\<close>, and the
  logarithms, which are \<open>map\<close> results that replace the copies. Then the fitting branch.
  The addresses of \<open>xCalc\<close> and \<open>yCalc\<close> are returned with the fit and the address of its
  residuals.
\<close>

definition workingCopiesOnStore ::
  "CurveModel \<Rightarrow> addr \<Rightarrow> addr \<Rightarrow> store \<Rightarrow> (addr \<times> addr \<times> addr) \<times> store" where
  "workingCopiesOnStore type axF ayF h =
     (let aCo0 = alloc (NumArr []) h;
          aRes0 = alloc (NumArr []) (snd aCo0);
          aPreds = alloc (NumArr []) (snd aRes0);
          aX0 = alloc (NumArr (nums (snd aPreds) axF)) (snd aPreds);
          aY0 = alloc (NumArr (nums (snd aX0) ayF)) (snd aX0);
          aX = (if type = power \<or> type = logarithmic
                then alloc (NumArr (map jlog (nums (snd aY0) axF))) (snd aY0)
                else (fst aX0, snd aY0));
          aY = (if type = power \<or> type = exponential
                then alloc (NumArr (map jlog (nums (snd aX) ayF))) (snd aX)
                else (fst aY0, snd aX))
      in ((fst aPreds, fst aX, fst aY), snd aY))"

definition standardFitOnStore ::
  "CurveModel \<Rightarrow> addr \<Rightarrow> addr \<Rightarrow> store
     \<Rightarrow> ((addr \<times> addr) \<times> (jserror + RawFit \<times> addr)) \<times> store" where
  "standardFitOnStore type axF ayF h =
     (let wc = workingCopiesOnStore type axF ayF h;
          aPreds = fst (fst wc);
          axC = fst (snd (fst wc));
          ayC = snd (snd (fst wc));
          fit = (if type = polynomial_2nd \<or> type = polynomial_3rd
                 then (let f = fitPolynomialOnStore type axC ayC aPreds (snd wc)
                       in (Inr (fst f), snd f))
                 else if type = linear_theil_sen
                 then fitTheilSenOnStore axC ayC aPreds (snd wc)
                 else (let f = fitLeastSquaresOnStore type axC ayC aPreds (snd wc)
                       in (Inr (fst f), snd f)))
      in (((axC, ayC), fst fit), snd fit))"

text \<open>
  The validation steps that create arrays. \<open>getRanks\<close> sorts the result of
  \<open>arr.map((v, i) => ({ v, i }))\<close> in place and fills a new array \<open>ranks\<close>;
  \<open>calculateSpearmanRank\<close> returns before it for fewer than three points.
  \<open>calculateAndersonDarling\<close> sorts the spread copy \<open>[...data]\<close> in place, and returns before
  it for fewer than three values. The other steps (Durbin-Watson, the correlation and
  independence tests) create no array and write to none.
\<close>

definition getRanksOnStore :: "nat \<Rightarrow> addr \<Rightarrow> store \<Rightarrow> addr \<times> store" where
  "getRanksOnStore n aArr h =
     (let aS = alloc (PairArr (zip (nums h aArr) [0..<length (nums h aArr)])) h;
          h1 = put (fst aS) (PairArr (jsSortBy fst (pairs (snd aS) (fst aS)))) (snd aS);
          aR = alloc (NumArr (replicate n (Fin 0))) h1;
          h2 = put (fst aR) (NumArr (rankLoop (pairs (snd aR) (fst aS)) n 0 (nums (snd aR) (fst aR))))
                 (snd aR)
      in (fst aR, h2))"

definition andersonDarlingOnStore :: "addr \<Rightarrow> store \<Rightarrow> store" where
  "andersonDarlingOnStore aData h =
     (if length (nums h aData) < 3 then h
      else let aS = alloc (NumArr (nums h aData)) h
           in put (fst aS) (NumArr (jsSort (nums (snd aS) (fst aS)))) (snd aS))"

definition validationOnStore :: "CurveModel \<Rightarrow> addr \<Rightarrow> addr \<Rightarrow> addr \<Rightarrow> store \<Rightarrow> store" where
  "validationOnStore type axC ayC aRes h =
     (if type = linear_theil_sen then
        (if length (nums h axC) < 3 then h
         else let rx = getRanksOnStore (length (nums h axC)) axC h
              in snd (getRanksOnStore (length (nums h axC)) ayC (snd rx)))
      else
        let h1 = andersonDarlingOnStore axC h;
            h2 = andersonDarlingOnStore ayC h1
        in andersonDarlingOnStore aRes h2)"

text \<open>
  \<open>calculateRegression\<close> and \<open>calculateMandelTest\<close> on the store: \<open>ax\<close> and \<open>ay\<close> are the
  addresses of the arrays \<open>x\<close> and \<open>y\<close> that the caller passes. The result for fewer than
  three points carries the array literal \<open>[0]\<close>, the result of the flexible split the
  literal \<open>[]\<close>; the flexible split passes the caller's own arrays on when at most four
  points survive, and four \<open>slice\<close> results otherwise; the Mandel test is given \<open>xFiltered\<close>
  and \<open>yFiltered\<close>.
\<close>

function calculateRegressionOnStore ::
    "addr \<Rightarrow> addr \<Rightarrow> CurveModel \<Rightarrow> bool \<Rightarrow> ModelChoice \<Rightarrow> bool \<Rightarrow> store
       \<Rightarrow> (jserror + RegressionResult) \<times> store"
  and calculateMandelTestOnStore ::
    "addr \<Rightarrow> addr \<Rightarrow> store \<Rightarrow> (jserror + ValidationStepResult) \<times> store" where
  "calculateRegressionOnStore ax ay type isUncertaintyModel choice skipMandel h =
     (let pre = filterOnStore ax ay type h;
          axF = fst (fst pre);
          ayF = snd (fst pre);
          h1 = snd pre;
          n = length (nums h1 axF)
      in if n < 3 then (Inr insufficientData, snd (alloc (NumArr [Fin 0]) h1))
         else if type = piecewise_mixed then
           (if n \<le> 4
            then calculateRegressionOnStore ax ay linear_pearson isUncertaintyModel defaultChoice False h1
            else
              let startIdx2 = fst (splitBounds n);
                  endIdx1 = snd (splitBounds n);
                  a1 = alloc (NumArr (take (nat (endIdx1 + 1)) (nums h1 axF))) h1;
                  b1 = alloc (NumArr (take (nat (endIdx1 + 1)) (nums (snd a1) ayF))) (snd a1);
                  a2 = alloc (NumArr (drop (nat startIdx2) (nums (snd b1) axF))) (snd b1);
                  b2 = alloc (NumArr (drop (nat startIdx2) (nums (snd a2) ayF))) (snd a2);
                  type1 = (if lowModel choice = piecewise_mixed then linear_pearson
                           else lowModel choice);
                  type2 = (if highModel choice = piecewise_mixed then linear_pearson
                           else highModel choice);
                  c1 = calculateRegressionOnStore (fst a1) (fst b1) type1 isUncertaintyModel
                         defaultChoice True (snd b2)
              in case fst c1 of
                   Inl e \<Rightarrow> (Inl e, snd c1)
                 | Inr r1 \<Rightarrow>
                    (let c2 = calculateRegressionOnStore (fst a2) (fst b2) type2 isUncertaintyModel
                                defaultChoice True (snd c1)
                     in case fst c2 of
                          Inl e \<Rightarrow> (Inl e, snd c2)
                        | Inr r2 \<Rightarrow>
                            (Inr (mixedResult (nums (snd c2) axF) (nums (snd c2) ayF)
                                    startIdx2 endIdx1 type1 type2 r1 r2),
                             snd (alloc (NumArr []) (snd c2)))))
         else
           let sf = standardFitOnStore type axF ayF h1;
               axC = fst (fst (fst sf));
               ayC = snd (fst (fst sf))
           in case snd (fst sf) of
                Inl e \<Rightarrow> (Inl e, snd sf)
              | Inr fr \<Rightarrow>
                  (let fit = fst fr;
                       h2 = validationOnStore type axC ayC (snd fr) (snd sf)
                   in if type = linear_pearson \<and> 4 \<le> n \<and> \<not> skipMandel
                      then (let mt = calculateMandelTestOnStore axF ayF h2
                            in case fst mt of
                                 Inl e \<Rightarrow> (Inl e, snd mt)
                               | Inr m \<Rightarrow>
                                   (Inr (standardResult type (nums (snd mt) axC) (nums (snd mt) ayC)
                                           fit (Some m)), snd mt))
                      else (Inr (standardResult type (nums h2 axC) (nums h2 ayC) fit None), h2)))"
| "calculateMandelTestOnStore ax ay h =
     (let n = length (nums h ax) in
      if n < 4 then (Inr \<lparr> passed = True, statisticValue = Fin 0, criticalValue = Fin 0,
                            isNotApplicable = False \<rparr>, h)
      else
        let c1 = calculateRegressionOnStore ax ay linear_pearson False defaultChoice True h
        in case fst c1 of
             Inl e \<Rightarrow> (Inl e, snd c1)
           | Inr regLin \<Rightarrow>
              (let c2 = calculateRegressionOnStore ax ay polynomial_2nd False defaultChoice False
                          (snd c1)
               in case fst c2 of
                    Inl e \<Rightarrow> (Inl e, snd c2)
                  | Inr regQuad \<Rightarrow>
                      (Inr (mandelVerdict n (sseOrZero regLin) (sseOrZero regQuad)), snd c2)))"
  by pat_completeness auto

termination
proof (relation "measure (\<lambda>v. case v of
         Inl (ax, ay, type, isUncertaintyModel, choice, skipMandel, h) \<Rightarrow>
           (if type = piecewise_mixed then 3
            else if type = linear_pearson \<and> \<not> skipMandel then 2 else 0)
       | Inr (ax, ay, h) \<Rightarrow> 1)", goal_cases)
  case 1
  show ?case by simp
next
  case 2
  from 2(7) show ?case by simp
next
  case 3
  from 3(7) 3(15) show ?case by simp
next
  case 4
  from 4(7) 4(16) show ?case by simp
next
  case 5
  from 5(14) show ?case by simp
next
  case 6
  show ?case by simp
next
  case 7
  show ?case by simp
qed

declare calculateRegressionOnStore.simps [simp del]
declare calculateMandelTestOnStore.simps [simp del]

(*DEFS-END*)

section \<open>Reference formulas and sample data\<close>

text \<open>The second and third component of the result of \<open>calculateAIC\<close>.\<close>

definition aiccOf :: "jsnum \<times> jsnum \<times> jsnum \<Rightarrow> jsnum" where
  "aiccOf r = fst (snd r)"

text \<open>The real value of a finite number (zero for the special values).\<close>

fun finVal :: "jsnum \<Rightarrow> real" where
  "finVal (Fin a) = a"
| "finVal v = 0"

text \<open>
  The interpolation uncertainty as the specification words it: the prediction interval
  at the query point itself, times the magnitude of the prediction for the power and
  exponential families.
\<close>

definition specInterpolationUncertainty :: "jsnum \<Rightarrow> RegressionResult \<Rightarrow> CurveModel \<Rightarrow> jsnum" where
  "specInterpolationUncertainty xInput reg model =
     (let df = (case anova reg of Some a \<Rightarrow> dfRes a | None \<Rightarrow> jsub (nUsed reg) (Fin 2));
          u = jmul (jmul (getTStudentCrit df) (residualStdDev reg))
                (jsqrt (jadd (jadd (Fin 1) (jdiv (Fin 1) (nUsed reg)))
                   (jdiv (jpow (jsub xInput (xBar reg)) (Fin 2)) (sumSqDiffX reg))))
      in if model = power \<or> model = exponential
         then jmul (jabs (predictValue xInput model (coefficients reg) None)) u
         else u)"

definition exampleFit :: RegressionResult where
  "exampleFit = \<lparr> coefficients = [Fin 0, Fin 1], rSquared = Fin 1, residualStdDev = Fin 1,
     extendedValidation = None, xBar = Fin 1, sumSqDiffX = Fin 1, nUsed = Fin 3,
     durbinWatson = Fin 2, anova = None, isParametricValid = True,
     aic = Fin 0, aicc = Fin 0, bic = Fin 0, modelQuality = GOOD,
     recommendationText = Literal ''Modelo valido.'', subModels = None, isBestFit = None \<rparr>"

definition exampleSplit :: SubModels where
  "exampleSplit =
     \<lparr> low = \<lparr> segType = linear_pearson, segCoeffs = [Fin 5, Fin 1], segLimit = Fin 1 \<rparr>,
       high = \<lparr> segType = logarithmic, segCoeffs = [Fin 1, Fin 2], segLimit = Fin 0 \<rparr> \<rparr>"

definition exampleSplitFit :: RegressionResult where
  "exampleSplitFit = exampleFit \<lparr> coefficients := [], subModels := Some exampleSplit \<rparr>"

text \<open>
  The flexible split read on the reals: the prediction of one segment and of the whole
  split at a finite query point (zero where the code's value is not a finite number), and
  the weight that the prediction gives to the high segment, \<open>(x - a) / (b - a)\<close> on the band
  \<open>[a, b]\<close>, \<open>0\<close> below it and \<open>1\<close> above it.
\<close>

definition segmentReal :: "Segment \<Rightarrow> real \<Rightarrow> real" where
  "segmentReal seg x = finVal (predictValue (Fin x) (segType seg) (segCoeffs seg) None)"

definition splitReal :: "jsnum list \<Rightarrow> SubModels \<Rightarrow> real \<Rightarrow> real" where
  "splitReal cs sm x = finVal (predictValue (Fin x) piecewise_mixed cs (Some sm))"

definition bandWeight :: "real \<Rightarrow> real \<Rightarrow> real \<Rightarrow> real" where
  "bandWeight a b x = max 0 (min 1 ((x - a) / (b - a)))"

text \<open>
  A split on the band \<open>[0, 1]\<close> whose high segment is a power curve with the exponent \<open>-2\<close>.
\<close>

definition jumpSplit :: SubModels where
  "jumpSplit =
     \<lparr> low = \<lparr> segType = linear_pearson, segCoeffs = [Fin 5, Fin 1], segLimit = Fin 1 \<rparr>,
       high = \<lparr> segType = power, segCoeffs = [Fin 1, Fin (- 2)], segLimit = Fin 0 \<rparr> \<rparr>"

text \<open>
  The Theil-Sen estimate on real data, as the specification words it and as the code
  computes it. \<open>realSlopes\<close> lists the slopes of all pairs with distinct abscissas,
  \<open>realIntercepts\<close> the values \<open>y - slope * x\<close>; \<open>median\<close> is the standard median, the mean
  of the two middle elements for an even count; \<open>upperMedian\<close> is the element at the index
  \<open>length div 2\<close> of the ascending order.
\<close>

definition upperMedian :: "real list \<Rightarrow> real" where
  "upperMedian xs = sort xs ! (length xs div 2)"

definition median :: "real list \<Rightarrow> real" where
  "median xs = (let s = sort xs; m = length s in
     if even m then (s ! (m div 2 - 1) + s ! (m div 2)) / 2 else s ! (m div 2))"

definition realSlopes :: "real list \<Rightarrow> real list \<Rightarrow> real list" where
  "realSlopes xs ys =
     concat (map (\<lambda>i. concat (map (\<lambda>j.
         if xs ! j \<noteq> xs ! i then [(ys ! j - ys ! i) / (xs ! j - xs ! i)] else [])
       [Suc i..<length xs])) [0..<length xs])"

definition realIntercepts :: "real \<Rightarrow> real list \<Rightarrow> real list \<Rightarrow> real list" where
  "realIntercepts slope xs ys = map (\<lambda>(x, y). y - slope * x) (zip xs ys)"

definition specTheilSen :: "real list \<Rightarrow> real list \<Rightarrow> real list" where
  "specTheilSen xs ys =
     (let slope = median (realSlopes xs ys);
          intercept = median (realIntercepts slope xs ys)
      in [intercept, slope])"

text \<open>
  A result as \<open>calculateRegression\<close> builds it: a recommendation that is not empty and no
  best-fit flag.
\<close>

definition wellFormed :: "RegressionResult \<Rightarrow> bool" where
  "wellFormed r = (textTruthy (recommendationText r) \<and> isBestFit r = None)"

text \<open>Whether a recommendation is the template that names the AICc gap.\<close>

fun namesGap :: "message \<Rightarrow> bool" where
  "namesGap (BetterFitsExist d) = True"
| "namesGap (Literal s) = False"

text \<open>The value model of the pair returned by \<open>fitStandardModels\<close>.\<close>

definition valueRegOf :: "jserror + RegressionResult \<times> RegressionResult \<Rightarrow> RegressionResult option" where
  "valueRegOf res = (case res of Inl e \<Rightarrow> None | Inr p \<Rightarrow> Some (fst p))"

text \<open>
  Five calibration points whose linear fit is significant with \<open>R^2 = 81/97\<close>, and a
  one-point session on a standard that carries its two fitted models.
\<close>

definition examplePoints :: "StandardCalibrationPoint list" where
  "examplePoints =
     [\<lparr> indication = Fin 0, referenceValue = Fin 0, uncertainty = Fin 0.002, coverageFactor = Fin 2 \<rparr>,
      \<lparr> indication = Fin 1, referenceValue = Fin 1, uncertainty = Fin 0.002, coverageFactor = Fin 2 \<rparr>,
      \<lparr> indication = Fin 2, referenceValue = Fin 2, uncertainty = Fin 0.002, coverageFactor = Fin 2 \<rparr>,
      \<lparr> indication = Fin 3, referenceValue = Fin 3, uncertainty = Fin 0.002, coverageFactor = Fin 2 \<rparr>,
      \<lparr> indication = Fin 4, referenceValue = Fin 8, uncertainty = Fin 0.002, coverageFactor = Fin 2 \<rparr>]"

definition exampleX :: "jsnum list" where
  "exampleX = [Fin 0, Fin 1, Fin 2, Fin 3, Fin 4]"

definition exampleY :: "jsnum list" where
  "exampleY = [Fin 0, Fin 1, Fin 2, Fin 3, Fin 8]"

text \<open>A store that holds the two sample arrays, at the addresses 0 and 1.\<close>

definition exampleStore :: store where
  "exampleStore = [NumArr exampleX, NumArr exampleY]"




section \<open>Arithmetic of the number model\<close>

lemma jle_Fin [simp]: "jle (Fin a) (Fin b) = (a \<le> b)"
  by (auto simp: jle_def)

lemma jle_PInf [simp]: "jle PInf PInf"
  by (simp add: jle_def)


lemma jabs_jmul_nonneg: "0 \<le> u \<Longrightarrow> jabs (jmul y (Fin u)) = jmul (jabs y) (Fin u)"
  by (cases y) (auto simp: abs_mult signedInf_def sgn_if)

lemma getTStudentCrit_pos: "jlt (Fin 0) (getTStudentCrit df)"
  by (simp add: getTStudentCrit_def)

lemma getTStudentCrit_finite: "isFinite (getTStudentCrit df)"
  by (simp add: getTStudentCrit_def)

lemma getTStudentCrit_Fin: "\<exists>t. 0 < t \<and> getTStudentCrit df = Fin t"
  using getTStudentCrit_pos[of df] getTStudentCrit_finite[of df]
  by (cases "getTStudentCrit df") auto

section \<open>Information criteria\<close>

lemma clamp_cases:
  assumes "sq \<noteq> NaN"
  shows "(\<exists>c. 0 < c \<and> (if jle sq (Fin (1 / 10 ^ 15)) then Fin (1 / 10 ^ 15) else sq) = Fin c)
       \<or> (if jle sq (Fin (1 / 10 ^ 15)) then Fin (1 / 10 ^ 15) else sq) = PInf"
proof (cases sq)
  case (Fin a)
  show ?thesis
  proof (cases "a \<le> 1 / 10 ^ 15")
    case True
    then show ?thesis using Fin by (intro disjI1 exI[of _ "1 / 10 ^ 15"]) simp
  next
    case False
    then have "0 < a" by (simp add: not_le)
    then show ?thesis using Fin False by simp
  qed
next
  case PInf
  then show ?thesis by (simp add: jle_def)
next
  case NInf
  then show ?thesis by (intro disjI1 exI[of _ "1 / 10 ^ 15"]) (simp add: jle_def)
next
  case NaN
  then show ?thesis using assms by simp
qed

lemma aicc_penalty_mono:
  fixes k1 k2 n :: real
  assumes "0 \<le> k1" "k1 < k2" "k2 + 1 < n"
  shows "2 * k1 + 2 * k1 * (k1 + 1) / (n - k1 - 1) \<le> 2 * k2 + 2 * k2 * (k2 + 1) / (n - k2 - 1)"
proof -
  have num: "2 * k1 * (k1 + 1) \<le> 2 * k2 * (k2 + 1)"
    using assms by (intro mult_mono) auto
  have "2 * k1 * (k1 + 1) / (n - k1 - 1) \<le> 2 * k2 * (k2 + 1) / (n - k2 - 1)"
    using assms num by (intro frac_le) auto
  then show ?thesis using assms by linarith
qed

lemma aicc_value:
  assumes "k + 1 < n" "0 < n"
  shows "aiccOf (calculateAIC (Fin n) (Fin k) sq) =
     jadd (jmul (Fin n) (jlog (jdiv (if jle sq (Fin (1 / 10 ^ 15)) then Fin (1 / 10 ^ 15) else sq) (Fin n))))
          (Fin (2 * k + 2 * k * (k + 1) / (n - k - 1)))"
  using assms
  apply (simp add: calculateAIC_def aiccOf_def Let_def jsub_def)
  apply (cases "jmul (Fin n) (jlog (jdiv (if jle sq (Fin (1 / 10 ^ 15)) then Fin (1 / 10 ^ 15) else sq) (Fin n)))")
     apply (auto)
  done

lemma base_cases:
  assumes "0 < n" "sq \<noteq> NaN"
  shows "\<exists>b. jmul (Fin n) (jlog (jdiv (if jle sq (Fin (1 / 10 ^ 15)) then Fin (1 / 10 ^ 15) else sq) (Fin n))) = Fin b
    \<or> jmul (Fin n) (jlog (jdiv (if jle sq (Fin (1 / 10 ^ 15)) then Fin (1 / 10 ^ 15) else sq) (Fin n))) = PInf"
proof -
  from clamp_cases[OF assms(2)] show ?thesis
  proof
    assume "\<exists>c. 0 < c \<and> (if jle sq (Fin (1 / 10 ^ 15)) then Fin (1 / 10 ^ 15) else sq) = Fin c"
    then obtain c where c: "0 < c" "(if jle sq (Fin (1 / 10 ^ 15)) then Fin (1 / 10 ^ 15) else sq) = Fin c"
      by blast
    have "0 < c / n" using c(1) assms(1) by simp
    then show ?thesis unfolding c(2) using assms(1) c(1) by (simp add: not_less)
  next
    assume p: "(if jle sq (Fin (1 / 10 ^ 15)) then Fin (1 / 10 ^ 15) else sq) = PInf"
    show ?thesis unfolding p using assms(1) by (simp add: signedInf_def)
  qed
qed

text \<open>
  Claim C8, as amended. For a sample size \<open>n\<close>, an SSE that is a number, and parameter
  counts \<open>k1 < k2\<close> that both leave a positive denominator \<open>n - k - 1\<close> (that is
  \<open>k2 + 1 < n\<close>), the AICc of \<open>calculateAIC\<close> for \<open>k1\<close> is at most the AICc for \<open>k2\<close>.
\<close>

theorem calculateAIC_aicc_monotone:
  assumes "k1 < k2" "k2 + 1 < n" "sq \<noteq> NaN"
  shows "jle (aiccOf (calculateAIC (ofNat n) (ofNat k1) sq)) (aiccOf (calculateAIC (ofNat n) (ofNat k2) sq))"
proof -
  let ?B = "jmul (Fin (real n)) (jlog (jdiv (if jle sq (Fin (1 / 10 ^ 15)) then Fin (1 / 10 ^ 15) else sq) (Fin (real n))))"
  have n: "0 < real n" "real k1 + 1 < real n" "real k2 + 1 < real n" using assms by auto
  have v1: "aiccOf (calculateAIC (ofNat n) (ofNat k1) sq) = jadd ?B (Fin (2 * real k1 + 2 * real k1 * (real k1 + 1) / (real n - real k1 - 1)))"
    unfolding ofNat_def using n by (intro aicc_value) auto
  have v2: "aiccOf (calculateAIC (ofNat n) (ofNat k2) sq) = jadd ?B (Fin (2 * real k2 + 2 * real k2 * (real k2 + 1) / (real n - real k2 - 1)))"
    unfolding ofNat_def using n by (intro aicc_value) auto
  have le: "2 * real k1 + 2 * real k1 * (real k1 + 1) / (real n - real k1 - 1) \<le> 2 * real k2 + 2 * real k2 * (real k2 + 1) / (real n - real k2 - 1)"
    using assms by (intro aicc_penalty_mono) auto
  from base_cases[OF n(1) assms(3)] obtain b where "?B = Fin b \<or> ?B = PInf" by blast
  then show ?thesis
  proof
    assume "?B = Fin b"
    then show ?thesis unfolding v1 v2 using le by simp
  next
    assume "?B = PInf"
    then show ?thesis unfolding v1 v2 by simp
  qed
qed


theorem calculateAIC_aicc_monotone_witness:
  "(1::nat) < 2 \<and> (2::nat) + 1 < 5 \<and> Fin 5 \<noteq> NaN
   \<and> jle (aiccOf (calculateAIC (ofNat 5) (ofNat 1) (Fin 5)))
           (aiccOf (calculateAIC (ofNat 5) (ofNat 2) (Fin 5)))"
  using calculateAIC_aicc_monotone [of 1 2 5 "Fin 5"] by simp

text \<open>
  Claim C8 as stated fails once the denominator \<open>n - k - 1\<close> changes sign: for \<open>n = 5\<close> and
  \<open>SSE = 5\<close> the AICc is \<open>30\<close> at \<open>k = 3\<close> and \<open>-50\<close> at \<open>k = 5\<close>.
\<close>

theorem calculateAIC_aicc_not_monotone:
  "\<not> jle (aiccOf (calculateAIC (ofNat 5) (ofNat 3) (Fin 5)))
           (aiccOf (calculateAIC (ofNat 5) (ofNat 5) (Fin 5)))"
  by (simp add: calculateAIC_def aiccOf_def ofNat_def jsub_def Let_def)

section \<open>Prediction and interpolation uncertainty\<close>

text \<open>
  Claim C9. For every input and every coefficient vector, \<open>predictValue\<close> returns its input
  unchanged for a model that the switch does not handle: the hard split, and the flexible
  split when no sub-model descriptor is given.
\<close>

theorem predictValue_default_identity:
  "predictValue x piecewise_linear cs sm = x \<and> predictValue x piecewise_mixed cs None = x"
  by simp

text \<open>
  Claim C2, as amended. For a regression result with \<open>n \<ge> 3\<close>, finite statistics,
  \<open>s_res \<ge> 0\<close> and \<open>Sxx \<ge> 0\<close>, of a family that is not a flexible split with sub-models, the
  interpolation uncertainty at a finite query point \<open>x\<close> is
  \<open>t_crit(df) * s_res * sqrt (1 + 1/n + (x' - xBar)^2 / Sxx)\<close>, where \<open>x'\<close> is \<open>ln x\<close> for the
  power and logarithmic families and \<open>x\<close> otherwise, and \<open>df\<close> is the residual degrees of
  freedom of the ANOVA record, or \<open>n - 2\<close> without one; for the power and exponential
  families it is multiplied by the magnitude of the predicted value. Two cases are
  answered before the formula: \<open>2 * s_res\<close> for a power or logarithmic family at
  \<open>x \<le> 0\<close>, and \<open>s_res\<close> when \<open>Sxx = 0\<close>.
\<close>

theorem interpolationUncertainty_formula:
  assumes "nUsed reg = Fin n" and "3 \<le> n"
    and "residualStdDev reg = Fin s" and "0 \<le> s"
    and "xBar reg = Fin xb" and "sumSqDiffX reg = Fin q" and "0 \<le> q"
    and "model \<noteq> piecewise_mixed \<or> subModels reg = None"
  shows "calculateInterpolationUncertainty (Fin x) reg model =
     (let logx = (model = power \<or> model = logarithmic);
          df = (case anova reg of Some a \<Rightarrow> dfRes a | None \<Rightarrow> Fin (n - 2));
          u = finVal (getTStudentCrit df) * s * sqrt (1 + 1 / n + ((if logx then ln x else x) - xb) ^ 2 / q)
      in if logx \<and> x \<le> 0 then Fin (s * 2)
         else if q = 0 then Fin s
         else if model = power \<or> model = exponential
           then jmul (jabs (predictValue (Fin x) model (coefficients reg) None)) (Fin u)
         else Fin u)"
proof -
  let ?df = "case anova reg of Some a \<Rightarrow> dfRes a | None \<Rightarrow> Fin (n - 2)"
  let ?logx = "model = power \<or> model = logarithmic"
  let ?z = "if ?logx then ln x else x"
  obtain t where t: "0 < t" "getTStudentCrit ?df = Fin t"
    using getTStudentCrit_Fin by blast
  have df: "(case anova reg of Some a \<Rightarrow> dfRes a | None \<Rightarrow> jsub (nUsed reg) (Fin 2)) = ?df"
    using assms(1) by (simp add: jsub_def split: option.splits)
  have n0: "n \<noteq> 0" "\<not> n < 3" using assms(2) by auto
  have nonneg: "0 \<le> 1 + 1 / n + (?z - xb) ^ 2 / q"
    using assms(2,7) by (intro add_nonneg_nonneg divide_nonneg_nonneg) auto
  have u0: "0 \<le> t * s * sqrt (1 + 1 / n + (?z - xb) ^ 2 / q)"
    using t(1) assms(4) nonneg by (intro mult_nonneg_nonneg) auto
  have first: "\<not> jlt (nUsed reg) (Fin 3)" "\<not> (model = piecewise_mixed \<and> subModels reg \<noteq> None)"
    using assms(1,8) n0 by auto
  show ?thesis
  proof (cases "?logx \<and> x \<le> 0")
    case True
    then show ?thesis
      unfolding calculateInterpolationUncertainty_def using first assms(3)
      by (auto simp: Let_def)
  next
    case notlow: False
    show ?thesis
    proof (cases "q = 0")
      case True
      then show ?thesis
        unfolding calculateInterpolationUncertainty_def using first notlow assms(3,6)
        by (auto simp: Let_def)
    next
      case False
      have xt: "(if ?logx then jlog (Fin x) else Fin x) = Fin ?z"
        using notlow by auto
      have tm: "jadd (jadd (Fin 1) (jdiv (Fin 1) (nUsed reg)))
                    (jdiv (jpow (jsub (Fin ?z) (xBar reg)) (Fin 2)) (sumSqDiffX reg))
                  = Fin (1 + 1 / n + (?z - xb) ^ 2 / q)"
        unfolding assms(1,5,6) using n0 False by (simp add: jsub_def)
      have u: "jmul (jmul (getTStudentCrit ?df) (residualStdDev reg))
                 (jsqrt (Fin (1 + 1 / n + (?z - xb) ^ 2 / q)))
               = Fin (t * s * sqrt (1 + 1 / n + (?z - xb) ^ 2 / q))"
        unfolding t(2) assms(3) using nonneg by (simp add: not_less)
      have q: "\<not> jeq (sumSqDiffX reg) (Fin 0)"
        using False assms(6) by simp
      have low: "\<not> (?logx \<and> jle (Fin x) (Fin 0))"
        using notlow by simp
      have "calculateInterpolationUncertainty (Fin x) reg model =
          (if model = power \<or> model = exponential
           then jabs (jmul (predictValue (Fin x) model (coefficients reg) None)
                  (Fin (t * s * sqrt (1 + 1 / n + (?z - xb) ^ 2 / q))))
           else Fin (t * s * sqrt (1 + 1 / n + (?z - xb) ^ 2 / q)))"
        unfolding calculateInterpolationUncertainty_def Let_def df xt tm u
        using first q low by (simp only: if_False if_True)
      also have "\<dots> = (if model = power \<or> model = exponential
           then jmul (jabs (predictValue (Fin x) model (coefficients reg) None))
                  (Fin (t * s * sqrt (1 + 1 / n + (?z - xb) ^ 2 / q)))
           else Fin (t * s * sqrt (1 + 1 / n + (?z - xb) ^ 2 / q)))"
        using jabs_jmul_nonneg[OF u0] by simp
      finally show ?thesis
        using notlow False t(2) by (auto simp del: predictValue.simps simp add: Let_def)
    qed
  qed
qed

theorem interpolationUncertainty_formula_witness:
  "nUsed exampleFit = Fin 3 \<and> (3::real) \<le> 3 \<and> residualStdDev exampleFit = Fin 1 \<and> (0::real) \<le> 1
   \<and> xBar exampleFit = Fin 1 \<and> sumSqDiffX exampleFit = Fin 1
   \<and> subModels exampleFit = None
   \<and> calculateInterpolationUncertainty (Fin 1) exampleFit logarithmic
       = Fin (12.706 * sqrt (7 / 3))"
  using interpolationUncertainty_formula [of exampleFit 3 1 1 1 logarithmic 1]
  by (simp add: exampleFit_def getTStudentCrit_def Let_def)

text \<open>
  Claim C2 as stated fails for a logarithmic fit: the code measures the distance to
  \<open>xBar\<close> from \<open>ln x\<close>, the stated formula from \<open>x\<close>.
\<close>

theorem interpolationUncertainty_not_spec_formula:
  "calculateInterpolationUncertainty (Fin 1) exampleFit logarithmic
    \<noteq> specInterpolationUncertainty (Fin 1) exampleFit logarithmic"
  by (simp add: calculateInterpolationUncertainty_def specInterpolationUncertainty_def
      exampleFit_def getTStudentCrit_def jsub_def Let_def)

subsection \<open>The flexible split as a real function\<close>

lemma isFinite_Fin: "isFinite v \<Longrightarrow> v = Fin (finVal v)"
  by (cases v) simp_all

lemma jpow_three: "jpow (Fin a) (Fin 3) = Fin (a ^ 3)"
proof -
  have "a powi 3 = a ^ 3" by (simp add: power_int_def)
  moreover have "0 < a \<Longrightarrow> a powr 3 = a ^ 3" by (simp add: powr_numeral)
  ultimately show ?thesis by (auto simp: not_less)
qed

lemma coeffOr0_finite: "list_all isFinite cs \<Longrightarrow> isFinite (coeffOr0 cs i)"
  by (simp add: coeffOr0_def jor_def elemAt_def truthy_def list_all_length)

text \<open>
  Where the two segment predictions are finite numbers, the split's prediction is their
  combination with the clamped weight: the low prediction up to the band start, the high
  prediction from the band end on, the interpolation between.
\<close>

lemma splitReal_formula:
  assumes "segLimit (high sm) = Fin a" and "segLimit (low sm) = Fin b" and "a < b"
    and "isFinite (predictValue (Fin x) (segType (low sm)) (segCoeffs (low sm)) None)"
    and "isFinite (predictValue (Fin x) (segType (high sm)) (segCoeffs (high sm)) None)"
  shows "splitReal cs sm x
         = (1 - bandWeight a b x) * segmentReal (low sm) x + bandWeight a b x * segmentReal (high sm) x"
proof -
  have l: "predictValue (Fin x) (segType (low sm)) (segCoeffs (low sm)) None = Fin (segmentReal (low sm) x)"
    using isFinite_Fin[OF assms(4)] by (simp add: segmentReal_def)
  have h: "predictValue (Fin x) (segType (high sm)) (segCoeffs (high sm)) None = Fin (segmentReal (high sm) x)"
    using isFinite_Fin[OF assms(5)] by (simp add: segmentReal_def)
  consider "x \<le> a" | "b \<le> x" | "a < x" "x < b" by linarith
  then show ?thesis
  proof cases
    case 1
    then have "(x - a) / (b - a) \<le> 0"
      using assms(3) by (simp add: divide_le_0_iff)
    then have w: "bandWeight a b x = 0"
      by (simp add: bandWeight_def)
    show ?thesis
      unfolding splitReal_def w using 1 assms(1,2) l by (simp add: Let_def)
  next
    case 2
    then have "1 \<le> (x - a) / (b - a)"
      using assms(3) by simp
    then have w: "bandWeight a b x = 1"
      by (simp add: bandWeight_def)
    have "\<not> x \<le> a" using 2 assms(3) by simp
    then show ?thesis
      unfolding splitReal_def w using 2 assms(1,2) h by (simp add: Let_def jge_def)
  next
    case 3
    then have "0 \<le> (x - a) / (b - a)" "(x - a) / (b - a) \<le> 1"
      by simp_all
    then have w: "bandWeight a b x = (x - a) / (b - a)"
      by (simp add: bandWeight_def)
    have n: "\<not> x \<le> a" "\<not> b \<le> x" "b - a \<noteq> 0" using 3 by simp_all
    show ?thesis
      unfolding splitReal_def w using n assms(1,2)
      by (simp add: Let_def jge_def blend_def jsub_def l h del: predictValue.simps(2-))
  qed
qed

lemma bandWeight_cont: "a < b \<Longrightarrow> isCont (bandWeight a b) x"
  unfolding bandWeight_def by (intro continuous_intros) simp

lemma splitReal_isCont:
  assumes "segLimit (high sm) = Fin a" and "segLimit (low sm) = Fin b" and "a < b"
    and "0 < d"
    and fin: "\<forall>x. \<bar>x - x0\<bar> < d \<longrightarrow>
           isFinite (predictValue (Fin x) (segType (low sm)) (segCoeffs (low sm)) None)
         \<and> isFinite (predictValue (Fin x) (segType (high sm)) (segCoeffs (high sm)) None)"
    and "isCont (segmentReal (low sm)) x0" and "isCont (segmentReal (high sm)) x0"
  shows "isCont (splitReal cs sm) x0"
proof -
  let ?g = "\<lambda>x. (1 - bandWeight a b x) * segmentReal (low sm) x
                 + bandWeight a b x * segmentReal (high sm) x"
  have g: "isCont ?g x0"
    using assms(6,7) bandWeight_cont[OF assms(3), of x0] by (intro continuous_intros)
  have "eventually (\<lambda>x. \<bar>x - x0\<bar> < d) (nhds x0)"
    using assms(4) by (metis dist_real_def eventually_nhds_metric dist_commute)
  then have "eventually (\<lambda>x. splitReal cs sm x = ?g x) (nhds x0)"
  proof (eventually_elim)
    case (elim x)
    with fin splitReal_formula[OF assms(1-3), of x cs] show ?case by blast
  qed
  then show ?thesis using g by (simp add: isCont_cong)
qed

text \<open>
  Each family predicts a finite number that depends continuously on the query point,
  when no coefficient is infinite: everywhere for the linear, polynomial and exponential
  families, at the positive query points for the power and logarithmic ones.
\<close>

lemma regular_from_formula:
  assumes "0 < d"
    and "\<And>x. \<bar>x - x0\<bar> < d \<Longrightarrow> predictValue (Fin x) (segType seg) (segCoeffs seg) None = Fin (g x)"
    and "isCont g x0"
  shows "\<exists>d>0. \<forall>x. \<bar>x - x0\<bar> < d \<longrightarrow> isFinite (predictValue (Fin x) (segType seg) (segCoeffs seg) None)"
    and "isCont (segmentReal seg) x0"
proof -
  show "\<exists>d>0. \<forall>x. \<bar>x - x0\<bar> < d \<longrightarrow> isFinite (predictValue (Fin x) (segType seg) (segCoeffs seg) None)"
    using assms(1,2) by (intro exI[of _ d]) simp
  have "eventually (\<lambda>x. \<bar>x - x0\<bar> < d) (nhds x0)"
    using assms(1) by (metis dist_real_def eventually_nhds_metric dist_commute)
  then have "eventually (\<lambda>x. segmentReal seg x = g x) (nhds x0)"
  proof (eventually_elim)
    case (elim x)
    with assms(2) show ?case by (simp add: segmentReal_def)
  qed
  then show "isCont (segmentReal seg) x0" using assms(3) by (simp add: isCont_cong)
qed

lemma segment_regular:
  assumes c: "list_all isFinite (segCoeffs seg)"
    and pos: "segType seg = power \<or> segType seg = logarithmic \<longrightarrow> 0 < x0"
  shows "\<exists>d>0. \<forall>x. \<bar>x - x0\<bar> < d \<longrightarrow> isFinite (predictValue (Fin x) (segType seg) (segCoeffs seg) None)"
    and "isCont (segmentReal seg) x0"
proof -
  define cf where "cf i = finVal (coeffOr0 (segCoeffs seg) i)" for i
  have k: "coeffOr0 (segCoeffs seg) i = Fin (cf i)" for i
    using coeffOr0_finite[OF c] isFinite_Fin by (simp add: cf_def)
  have "\<exists>d g. 0 < d \<and> (\<forall>x. \<bar>x - x0\<bar> < d \<longrightarrow>
            predictValue (Fin x) (segType seg) (segCoeffs seg) None = Fin (g x)) \<and> isCont g x0"
  proof (cases "segType seg")
    case linear_pearson
    show ?thesis
      by (intro exI[of _ 1] exI[of _ "\<lambda>x. cf 0 + cf 1 * x"]) (simp add: linear_pearson k)
  next
    case linear_theil_sen
    show ?thesis
      by (intro exI[of _ 1] exI[of _ "\<lambda>x. cf 0 + cf 1 * x"]) (simp add: linear_theil_sen k)
  next
    case piecewise_linear
    show ?thesis
      by (intro exI[of _ 1] exI[of _ "\<lambda>x. x"]) (simp add: piecewise_linear)
  next
    case piecewise_mixed
    show ?thesis
      by (intro exI[of _ 1] exI[of _ "\<lambda>x. x"]) (simp add: piecewise_mixed)
  next
    case polynomial_2nd
    show ?thesis
      by (intro exI[of _ 1] exI[of _ "\<lambda>x. cf 0 + cf 1 * x + cf 2 * x * x"])
         (simp add: polynomial_2nd k)
  next
    case polynomial_3rd
    show ?thesis
      by (intro exI[of _ 1] exI[of _ "\<lambda>x. cf 0 + cf 1 * x + cf 2 * x ^ 2 + cf 3 * x ^ 3"])
         (simp add: polynomial_3rd k jpow_three)
  next
    case power
    then have x0: "0 < x0" using pos by simp
    have "isCont (\<lambda>x. cf 0 * x powr cf 1) x0"
      using x0 by (intro continuous_intros) auto
    then show ?thesis
      using x0
      by (intro exI[of _ x0] exI[of _ "\<lambda>x. cf 0 * x powr cf 1"]) (auto simp add: power k)
  next
    case exponential
    show ?thesis
      by (intro exI[of _ 1] exI[of _ "\<lambda>x. cf 0 * exp (cf 1 * x)"]) (simp add: exponential k)
  next
    case logarithmic
    then have x0: "0 < x0" using pos by simp
    have "isCont (\<lambda>x. cf 0 + cf 1 * ln x) x0"
      using x0 by (intro continuous_intros) auto
    then show ?thesis
      using x0
      by (intro exI[of _ x0] exI[of _ "\<lambda>x. cf 0 + cf 1 * ln x"]) (auto simp add: logarithmic k)
  qed
  then obtain d g where "0 < d"
    "\<And>x. \<bar>x - x0\<bar> < d \<Longrightarrow> predictValue (Fin x) (segType seg) (segCoeffs seg) None = Fin (g x)"
    "isCont g x0" by blast
  from regular_from_formula[OF this]
  show "\<exists>d>0. \<forall>x. \<bar>x - x0\<bar> < d \<longrightarrow> isFinite (predictValue (Fin x) (segType seg) (segCoeffs seg) None)"
    and "isCont (segmentReal seg) x0" by blast+
qed

text \<open>
  So a split whose segment coefficients are all finite predicts continuously at every
  query point, the two band edges among them, that is positive where a segment is a
  power or a logarithmic curve.
\<close>

lemma splitReal_isCont_families:
  assumes "segLimit (high sm) = Fin a" and "segLimit (low sm) = Fin b" and "a < b"
    and "list_all isFinite (segCoeffs (low sm))" and "list_all isFinite (segCoeffs (high sm))"
    and "segType (low sm) \<in> {power, logarithmic} \<or> segType (high sm) \<in> {power, logarithmic}
         \<longrightarrow> 0 < x0"
  shows "isCont (splitReal cs sm) x0"
proof -
  from assms(6) have pl: "segType (low sm) = power \<or> segType (low sm) = logarithmic \<longrightarrow> 0 < x0"
    and ph: "segType (high sm) = power \<or> segType (high sm) = logarithmic \<longrightarrow> 0 < x0"
    by auto
  from segment_regular(1)[OF assms(4) pl] obtain d1 where d1: "0 < d1"
    "\<forall>x. \<bar>x - x0\<bar> < d1 \<longrightarrow> isFinite (predictValue (Fin x) (segType (low sm)) (segCoeffs (low sm)) None)"
    by blast
  from segment_regular(1)[OF assms(5) ph] obtain d2 where d2: "0 < d2"
    "\<forall>x. \<bar>x - x0\<bar> < d2 \<longrightarrow> isFinite (predictValue (Fin x) (segType (high sm)) (segCoeffs (high sm)) None)"
    by blast
  have "0 < min d1 d2" using d1(1) d2(1) by simp
  moreover have "\<forall>x. \<bar>x - x0\<bar> < min d1 d2 \<longrightarrow>
           isFinite (predictValue (Fin x) (segType (low sm)) (segCoeffs (low sm)) None)
         \<and> isFinite (predictValue (Fin x) (segType (high sm)) (segCoeffs (high sm)) None)"
    using d1(2) d2(2) by simp
  ultimately show ?thesis
    using splitReal_isCont[OF assms(1-3) _ _ segment_regular(2)[OF assms(4) pl]
        segment_regular(2)[OF assms(5) ph]] by blast
qed

lemma jumpSplit_inside:
  assumes "0 < x" and "x < 1"
  shows "splitReal [] jumpSplit x = (1 - x) * (5 + x) + 1 / x"
proof -
  have "x * x powr (- 2) = 1 / x"
    using assms(1) by (simp add: powr_minus powr_numeral power2_eq_square divide_simps)
  then show ?thesis
    using assms
    by (simp add: splitReal_def jumpSplit_def Let_def jge_def blend_def jsub_def coeffOr0_def jor_def
        truthy_def elemAt_def)
qed

lemma jumpSplit_start: "splitReal [] jumpSplit 0 = 5"
  by (simp add: splitReal_def jumpSplit_def Let_def coeffOr0_def jor_def truthy_def elemAt_def)

text \<open>
  Claim C7, as amended. For a flexible-split result whose band \<open>[a, b]\<close> has \<open>a < b\<close>: the
  prediction at \<open>a\<close> is the low segment's prediction and at \<open>b\<close> the high segment's; the
  prediction, read as a real function of the query point, is continuous at every point
  \<open>x0\<close>, each band edge among them, around which the two segment predictions are finite
  numbers and at which both are continuous; and the interpolation uncertainty is the same
  at every query point.
\<close>

theorem flexibleSplit_continuous_at_band_edges:
  assumes "segLimit (high sm) = Fin a" and "segLimit (low sm) = Fin b" and "a < b"
    and "subModels reg = Some sm"
  shows "predictValue (Fin a) piecewise_mixed cs (Some sm)
           = predictValue (Fin a) (segType (low sm)) (segCoeffs (low sm)) None
       \<and> predictValue (Fin b) piecewise_mixed cs (Some sm)
           = predictValue (Fin b) (segType (high sm)) (segCoeffs (high sm)) None
       \<and> (0 < d
            \<and> (\<forall>x. \<bar>x - x0\<bar> < d \<longrightarrow>
                   isFinite (predictValue (Fin x) (segType (low sm)) (segCoeffs (low sm)) None)
                 \<and> isFinite (predictValue (Fin x) (segType (high sm)) (segCoeffs (high sm)) None))
            \<and> isCont (segmentReal (low sm)) x0 \<and> isCont (segmentReal (high sm)) x0
          \<longrightarrow> isCont (splitReal cs sm) x0)
       \<and> calculateInterpolationUncertainty x reg piecewise_mixed
           = calculateInterpolationUncertainty x' reg piecewise_mixed"
proof -
  have "predictValue (Fin a) piecewise_mixed cs (Some sm)
           = predictValue (Fin a) (segType (low sm)) (segCoeffs (low sm)) None"
    using assms(1) by (simp add: Let_def)
  moreover have "predictValue (Fin b) piecewise_mixed cs (Some sm)
           = predictValue (Fin b) (segType (high sm)) (segCoeffs (high sm)) None"
    using assms(1-3) by (simp add: Let_def jge_def)
  moreover have "calculateInterpolationUncertainty x reg piecewise_mixed
           = calculateInterpolationUncertainty x' reg piecewise_mixed"
    using assms(4) by (simp add: calculateInterpolationUncertainty_def)
  ultimately show ?thesis
    using splitReal_isCont[OF assms(1-3), of d x0 cs] by blast
qed

theorem flexibleSplit_continuous_at_band_edges_witness:
  "segLimit (high exampleSplit) = Fin 0 \<and> segLimit (low exampleSplit) = Fin 1 \<and> (0::real) < 1
   \<and> subModels exampleSplitFit = Some exampleSplit
   \<and> predictValue (Fin 0) piecewise_mixed [] (Some exampleSplit) = Fin 5
   \<and> predictValue (Fin 1) piecewise_mixed [] (Some exampleSplit) = Fin 1
   \<and> isCont (splitReal [] exampleSplit) 1
   \<and> calculateInterpolationUncertainty (Fin 0) exampleSplitFit piecewise_mixed
       = calculateInterpolationUncertainty (Fin 1) exampleSplitFit piecewise_mixed"
proof -
  have f: "\<forall>x. \<bar>x - 1\<bar> < (1::real) \<longrightarrow>
       isFinite (predictValue (Fin x) (segType (low exampleSplit)) (segCoeffs (low exampleSplit)) None)
     \<and> isFinite (predictValue (Fin x) (segType (high exampleSplit)) (segCoeffs (high exampleSplit)) None)"
    by (auto simp add: exampleSplit_def coeffOr0_def jor_def truthy_def elemAt_def)
  have l: "isCont (segmentReal (low exampleSplit)) 1"
    by (rule segment_regular(2)) (simp_all add: exampleSplit_def)
  have h: "isCont (segmentReal (high exampleSplit)) 1"
    by (rule segment_regular(2)) (simp_all add: exampleSplit_def)
  show ?thesis
    using flexibleSplit_continuous_at_band_edges
      [of exampleSplit 0 1 exampleSplitFit "[]" 1 1 "Fin 0" "Fin 1"] f l h
    by (simp add: exampleSplit_def exampleSplitFit_def exampleFit_def coeffOr0_def jor_def
        truthy_def elemAt_def)
qed

text \<open>
  Claim C7 as stated fails just inside the band: with a power curve of exponent \<open>-2\<close> as
  high segment and the band \<open>[0, 1]\<close>, the prediction at the band start \<open>0\<close> is the low
  segment's \<open>5\<close>, and at \<open>x\<close> inside the band it is \<open>(1 - x) * (5 + x) + 1 / x\<close>, about
  \<open>1005\<close> at \<open>x = 1/1000\<close> and unbounded as \<open>x\<close> approaches the band start.
\<close>

theorem flexibleSplit_jump_at_band_start:
  "segLimit (high jumpSplit) = Fin 0 \<and> segLimit (low jumpSplit) = Fin 1
   \<and> predictValue (Fin 0) piecewise_mixed [] (Some jumpSplit) = Fin 5
   \<and> predictValue (Fin (1 / 1000)) piecewise_mixed [] (Some jumpSplit) = Fin (1004995999 / 1000000)
   \<and> \<not> isCont (splitReal [] jumpSplit) 0"
proof -
  have "\<not> isCont (splitReal [] jumpSplit) 0"
  proof
    assume "isCont (splitReal [] jumpSplit) 0"
    then obtain d where d: "0 < d"
      "\<And>x. \<bar>x - 0\<bar> < d \<Longrightarrow> \<bar>splitReal [] jumpSplit x - splitReal [] jumpSplit 0\<bar> < 1"
      unfolding isCont_def LIM_eq by (metis zero_less_one real_norm_def diff_self abs_zero)
    define x where "x = min (d / 2) (1 / 10)"
    have x: "0 < x" "x < d" "x \<le> 1 / 10" using d(1) by (simp_all add: x_def min_def)
    then have i: "10 \<le> 1 / x" by (simp add: field_simps)
    have "x * x \<le> 1 / 10 * (1 / 10)" using x by (intro mult_mono) simp_all
    then have "(1 - x) * (5 + x) \<ge> 4" using x by (simp add: algebra_simps)
    then have "9 \<le> splitReal [] jumpSplit x - splitReal [] jumpSplit 0"
      using i x by (simp add: jumpSplit_inside jumpSplit_start)
    moreover have "\<bar>splitReal [] jumpSplit x - splitReal [] jumpSplit 0\<bar> < 1"
      using d(2)[of x] x by simp
    ultimately show False by simp
  qed
  moreover have "predictValue (Fin (1 / 1000)) piecewise_mixed [] (Some jumpSplit)
      = Fin (1004995999 / 1000000)"
    by (simp add: jumpSplit_def Let_def jge_def blend_def jsub_def coeffOr0_def jor_def
        truthy_def elemAt_def powr_minus powr_numeral power2_eq_square)
  moreover have "predictValue (Fin 0) piecewise_mixed [] (Some jumpSplit) = Fin 5"
    by (simp add: jumpSplit_def Let_def coeffOr0_def jor_def truthy_def elemAt_def)
  ultimately show ?thesis by (simp add: jumpSplit_def)
qed

section \<open>Results of the regression engine\<close>

lemma standardResult_coefficients [simp]: "coefficients (standardResult t xc yc fit m) = fitCoeffs fit"
  by (simp add: standardResult_def Let_def)

lemma standardResult_text [simp]: "textTruthy (recommendationText (standardResult t xc yc fit m))"
  by (simp add: standardResult_def Let_def)

lemma standardResult_isBestFit [simp]: "isBestFit (standardResult t xc yc fit m) = None"
  by (simp add: standardResult_def Let_def)

lemma standardResult_text_literal:
  "\<not> namesGap (recommendationText (standardResult t xc yc fit m))"
  by (simp add: standardResult_def Let_def)

lemma standardResult_rSquared:
  "rSquared (standardResult t xc yc fit m) =
     jsub (Fin 1) (jdiv (sumOf (\<lambda>r. jmul r r) (fitResiduals fit))
       (jor (sumOf (\<lambda>yi. jpow (jsub yi (jdiv (jsum yc) (ofNat (length xc)))) (Fin 2)) yc) (Fin 1)))"
  by (simp add: standardResult_def Let_def)

lemma standardResult_valid:
  "isParametricValid (standardResult t xc yc fit m) =
     (t = linear_theil_sen \<or>
      (let ssRes = sumOf (\<lambda>r. jmul r r) (fitResiduals fit);
           ssTot = sumOf (\<lambda>yi. jpow (jsub yi (jdiv (jsum yc) (ofNat (length xc)))) (Fin 2)) yc;
           dfResidual = jsub (ofNat (length xc)) (ofNat (numParams fit));
           dfRegression = jsub (ofNat (numParams fit)) (Fin 1)
       in jgt (jdiv (jdiv (jsub ssTot ssRes) (jor dfRegression (Fin 1)))
                    (jdiv ssRes (jor dfResidual (Fin 1))))
              (getFCrit dfResidual dfRegression)))"
  by (simp add: standardResult_def Let_def)

lemma mixedResult_text [simp]: "textTruthy (recommendationText (mixedResult xf yf s e t1 t2 r1 r2))"
  by (simp add: mixedResult_def Let_def)

lemma mixedResult_isBestFit [simp]: "isBestFit (mixedResult xf yf s e t1 t2 r1 r2) = None"
  by (simp add: mixedResult_def Let_def)

lemma insufficientData_text [simp]: "textTruthy (recommendationText insufficientData)"
  "isBestFit insufficientData = None"
  by (simp_all add: insufficientData_def)

lemma wellFormed_simps [simp]:
  "wellFormed insufficientData"
  "wellFormed (standardResult t xc yc fit m)"
  "wellFormed (mixedResult xf yf a b t1 t2 r1 r2)"
  by (simp_all add: wellFormed_def)

lemma calculateRegression_shape:
  assumes "t \<noteq> piecewise_mixed" and "calculateRegression x y t u c s = Inr r"
  shows "wellFormed r"
  using assms
  by (subst (asm) calculateRegression.simps)
     (auto simp: Let_def split: if_splits sum.splits)

lemma calculateRegression_mixed_shape:
  assumes "calculateRegression x y piecewise_mixed u c s = Inr r"
  shows "wellFormed r \<or> calculateRegression x y linear_pearson u defaultChoice False = Inr r"
  using assms
  by (subst (asm) calculateRegression.simps)
     (auto simp: Let_def split: if_splits sum.splits)

lemma calculateRegression_good:
  assumes "calculateRegression x y t u c s = Inr r"
  shows "wellFormed r"
proof (cases "t = piecewise_mixed")
  case False
  from calculateRegression_shape[OF False assms] show ?thesis .
next
  case True
  from calculateRegression_mixed_shape[OF assms[unfolded True]]
  show ?thesis
  proof
    assume "calculateRegression x y linear_pearson u defaultChoice False = Inr r"
    from calculateRegression_shape[OF _ this] show ?thesis by simp
  qed
qed

lemma standardFit_no_error:
  "t \<noteq> linear_theil_sen \<Longrightarrow> standardFit t xc yc =
     Inr (if t = polynomial_2nd \<or> t = polynomial_3rd then fitPolynomial t xc yc else fitLeastSquares t xc yc)"
  by (simp add: standardFit_def)

lemma calculateRegression_skip:
  assumes "t \<noteq> piecewise_mixed" "t \<noteq> linear_theil_sen" "t \<noteq> linear_pearson \<or> s"
  shows "calculateRegression x y t u c s =
     (let idx = validIndices x y t; xF = map (elemAt x) idx; yF = map (elemAt y) idx in
      if length idx < 3 then Inr insufficientData
      else Inr (standardResult t (transformX t xF) (transformY t yF)
             (if t = polynomial_2nd \<or> t = polynomial_3rd then fitPolynomial t (transformX t xF) (transformY t yF)
              else fitLeastSquares t (transformX t xF) (transformY t yF)) None))"
  using assms
  by (subst calculateRegression.simps) (auto simp: Let_def standardFit_no_error)

lemma calculateMandelTest_no_error: "\<exists>m. calculateMandelTest x y = Inr m"
  by (subst calculateMandelTest.simps)
     (simp add: Let_def calculateRegression_skip)

lemma calculateRegression_linear:
  "\<exists>m. calculateRegression x y linear_pearson u c s =
     (let xF = map (elemAt x) [0..<length x]; yF = map (elemAt y) [0..<length x] in
      if length x < 3 then Inr insufficientData
      else Inr (standardResult linear_pearson xF yF (fitLeastSquares linear_pearson xF yF) m))"
proof -
  obtain m where m: "calculateMandelTest (map (elemAt x) [0..<length x]) (map (elemAt y) [0..<length x]) = Inr m"
    using calculateMandelTest_no_error by blast
  show ?thesis
  proof (cases "4 \<le> length x \<and> \<not> s")
    case True
    then show ?thesis
      by (intro exI[of _ "Some m"], subst calculateRegression.simps)
         (simp add: Let_def standardFit_no_error validIndices_def transformX_def transformY_def m)
  next
    case False
    then show ?thesis
      by (intro exI[of _ "None"], subst calculateRegression.simps)
         (auto simp add: Let_def standardFit_no_error validIndices_def transformX_def transformY_def)
  qed
qed

lemma elemAt_map_Fin [simp]: "i < length l \<Longrightarrow> elemAt (map Fin l) i = Fin (l ! i)"
  by (simp add: elemAt_def)

lemma map_elemAt_upt [simp]: "map (elemAt xs) [0..<length xs] = xs"
  by (rule nth_equalityI) (simp_all add: elemAt_def)

lemma map_elemAt_upt_same: "length ys = length xs \<Longrightarrow> map (elemAt ys) [0..<length xs] = ys"
  by (rule nth_equalityI) (simp_all add: elemAt_def)

lemma mapIdx_nth: "mapIdx f xs = map (\<lambda>i. f (xs ! i) i) [0..<length xs]"
  unfolding mapIdx_def by (rule nth_equalityI) simp_all

lemma calculateRegression_linear_same:
  assumes "length y = length x" and "3 \<le> length x"
  shows "\<exists>m. calculateRegression x y linear_pearson u c s =
     Inr (standardResult linear_pearson x y (fitLeastSquares linear_pearson x y) m)"
proof -
  have "\<not> length x < 3" using assms(2) by simp
  then show ?thesis
    using calculateRegression_linear[of x y u c s]
    unfolding Let_def map_elemAt_upt map_elemAt_upt_same[OF assms(1)] by simp
qed

text \<open>
  Claim C3. When fewer than three index pairs survive the domain filter,
  \<open>calculateRegression\<close> returns a result (it does not throw), and the result is the
  sentinel: quality \<open>INVALID\<close>, not parametrically valid, \<open>n = 0\<close>, and \<open>R^2\<close> and the
  residual standard deviation both zero.
\<close>

theorem calculateRegression_insufficient_data:
  assumes "length (validIndices x y t) < 3"
  shows "\<exists>r. calculateRegression x y t u c s = Inr r
     \<and> modelQuality r = INVALID \<and> \<not> isParametricValid r \<and> nUsed r = Fin 0
     \<and> rSquared r = Fin 0 \<and> residualStdDev r = Fin 0"
  using assms
  by (subst calculateRegression.simps) (simp add: Let_def insufficientData_def)

theorem calculateRegression_insufficient_data_witness:
  "length (validIndices [Fin 1, Fin 2] [Fin 1, Fin 2] linear_pearson) < 3
   \<and> map_sum id modelQuality
       (calculateRegression [Fin 1, Fin 2] [Fin 1, Fin 2] linear_pearson False defaultChoice False)
     = Inr INVALID
   \<and> map_sum id nUsed
       (calculateRegression [Fin 1, Fin 2] [Fin 1, Fin 2] linear_pearson False defaultChoice False)
     = Inr (Fin 0)"
proof -
  have h: "length (validIndices [Fin 1, Fin 2] [Fin 1, Fin 2] linear_pearson) < 3"
    by (simp add: validIndices_def)
  from calculateRegression_insufficient_data[OF h, of False defaultChoice False] show ?thesis
    using h by auto
qed

subsection \<open>Zero variance in x\<close>

lemma zeroVariance_leastSquares: "fitCoeffs (fitLeastSquares linear_pearson [Fin 1, Fin 1, Fin 1] [Fin 1, Fin 2, Fin 3]) = [NaN, NaN]"
  by (simp add: fitLeastSquares_def Let_def jsum_def sumOf_def sumOfIdx_def ofNat_def jsub_def
      elemAt_def signedInf_def upt_rec)

lemma zeroVariance_theilSen: "fitTheilSen [Fin 1, Fin 1, Fin 1] [Fin 1, Fin 2, Fin 3] = Inl TypeError"
  by code_simp

text \<open>
  Claim C4 does not hold of the code. For three points with the same abscissa the
  least-squares slope is \<open>0 / 0\<close>: the linear fit returns a result whose coefficients are
  both \<open>NaN\<close>, and the Theil-Sen fit, which finds no pair of distinct abscissas, ends in a
  \<open>TypeError\<close>.
\<close>

theorem calculateRegression_zero_variance_x:
  "map_sum id coefficients
     (calculateRegression [Fin 1, Fin 1, Fin 1] [Fin 1, Fin 2, Fin 3] linear_pearson False defaultChoice False)
     = Inr [NaN, NaN]
   \<and> calculateRegression [Fin 1, Fin 1, Fin 1] [Fin 1, Fin 2, Fin 3] linear_theil_sen False
        defaultChoice False = Inl TypeError"
proof -
  obtain m where "calculateRegression [Fin 1, Fin 1, Fin 1] [Fin 1, Fin 2, Fin 3] linear_pearson
      False defaultChoice False
    = Inr (standardResult linear_pearson [Fin 1, Fin 1, Fin 1] [Fin 1, Fin 2, Fin 3]
        (fitLeastSquares linear_pearson [Fin 1, Fin 1, Fin 1] [Fin 1, Fin 2, Fin 3]) m)"
    using calculateRegression_linear_same[of "[Fin 1, Fin 2, Fin 3]" "[Fin 1, Fin 1, Fin 1]"
        False defaultChoice False] by auto
  then have a: "map_sum id coefficients
     (calculateRegression [Fin 1, Fin 1, Fin 1] [Fin 1, Fin 2, Fin 3] linear_pearson False defaultChoice False)
     = Inr [NaN, NaN]"
    by (simp add: zeroVariance_leastSquares)
  have idx: "validIndices [Fin 1, Fin 1, Fin 1] [Fin 1, Fin 2, Fin 3] linear_theil_sen = [0..<length [Fin 1, Fin 1, Fin (1::real)]]"
    by (simp add: validIndices_def)
  have yF: "map (elemAt [Fin 1, Fin 2, Fin 3]) [0..<length [Fin 1, Fin 1, Fin (1::real)]] = [Fin 1, Fin 2, Fin 3]"
    by (intro map_elemAt_upt_same) simp
  have b: "calculateRegression [Fin 1, Fin 1, Fin 1] [Fin 1, Fin 2, Fin 3] linear_theil_sen False
        defaultChoice False = Inl TypeError"
    apply (subst calculateRegression.simps)
    unfolding idx Let_def map_elemAt_upt yF
    by (simp add: standardFit_def transformX_def transformY_def zeroVariance_theilSen)
  show ?thesis using a b by simp
qed

subsection \<open>Theil-Sen\<close>

lemma jsInsertBy_Fin: "jsInsertBy (\<lambda>v. v) (Fin a) (map Fin l) = map Fin (insort a l)"
  by (induction l) (auto simp: jgt_def jsub_def)

lemma jsSort_Fin: "jsSort (map Fin l) = map Fin (sort l)"
  unfolding jsSort_def jsSortBy_def
  by (induction l) (simp_all add: jsInsertBy_Fin sort_key_def)

lemma pairwiseSlopes_Fin:
  assumes "length ys = length xs"
  shows "pairwiseSlopes (map Fin xs) (map Fin ys) = map Fin (realSlopes xs ys)"
proof -
  have inner: "(if jne (elemAt (map Fin xs) j) (elemAt (map Fin xs) i)
         then [jdiv (jsub (elemAt (map Fin ys) j) (elemAt (map Fin ys) i))
                 (jsub (elemAt (map Fin xs) j) (elemAt (map Fin xs) i))]
         else [])
      = map Fin (if xs ! j \<noteq> xs ! i then [(ys ! j - ys ! i) / (xs ! j - xs ! i)] else [])"
    if "i < length xs" "j < length xs" for i j
    using that assms by (simp add: jne_def jsub_def)
  show ?thesis
    unfolding pairwiseSlopes_def realSlopes_def map_concat map_map o_def length_map
    by (intro arg_cong[where f = concat] map_cong refl) (auto simp: assms jne_def jsub_def)
qed

lemma realIntercepts_nth:
  "length ys = length xs \<Longrightarrow>
   map (\<lambda>i. ys ! i - slope * xs ! i) [0..<length xs] = realIntercepts slope xs ys"
  unfolding realIntercepts_def by (rule nth_equalityI) simp_all

lemma fitTheilSen_Fin:
  assumes "length ys = length xs" and "realSlopes xs ys \<noteq> []" and "xs \<noteq> []"
  shows "\<exists>fit. fitTheilSen (map Fin xs) (map Fin ys) = Inr fit
     \<and> fitCoeffs fit = [Fin (upperMedian (realIntercepts (upperMedian (realSlopes xs ys)) xs ys)),
                         Fin (upperMedian (realSlopes xs ys))]"
proof -
  let ?sl = "realSlopes xs ys"
  let ?slope = "upperMedian ?sl"
  have s1: "jsSort (pairwiseSlopes (map Fin xs) (map Fin ys)) = map Fin (sort ?sl)"
    by (simp add: pairwiseSlopes_Fin[OF assms(1)] jsSort_Fin)
  have len: "length ?sl div 2 < length (sort ?sl)"
    using assms(2) by simp
  have slope: "elemAt (map Fin (sort ?sl)) (length (map Fin (sort ?sl)) div 2) = Fin ?slope"
    using len by (simp add: upperMedian_def)
  have ints: "mapIdx (\<lambda>yv i. jsub yv (jmul (Fin ?slope) (elemAt (map Fin xs) i))) (map Fin ys)
      = map Fin (realIntercepts ?slope xs ys)"
    unfolding mapIdx_nth realIntercepts_nth[OF assms(1), symmetric]
    using assms(1) by (simp add: jsub_def)
  have ilen: "length (realIntercepts ?slope xs ys) div 2 < length (sort (realIntercepts ?slope xs ys))"
    using assms(1,3) by (simp add: realIntercepts_def)
  have intercept: "elemAt (map Fin (sort (realIntercepts ?slope xs ys)))
        (length (map Fin (sort (realIntercepts ?slope xs ys))) div 2)
      = Fin (upperMedian (realIntercepts ?slope xs ys))"
    using ilen by (simp add: upperMedian_def)
  have ne: "map Fin (sort ?sl) \<noteq> []" using assms(2) by (metis len length_map less_nat_zero_code list.size(3))
  show ?thesis
    unfolding fitTheilSen_def s1 Let_def slope ints jsSort_Fin intercept
    using ne by simp
qed

lemma upperMedian_odd: "odd (length xs) \<Longrightarrow> upperMedian xs = median xs"
  by (simp add: upperMedian_def median_def Let_def)

lemma calculateRegression_theilSen:
  assumes "length ys = length xs" and "3 \<le> length xs" and "realSlopes xs ys \<noteq> []"
  shows "\<exists>r. calculateRegression (map Fin xs) (map Fin ys) linear_theil_sen u c s = Inr r
     \<and> coefficients r = [Fin (upperMedian (realIntercepts (upperMedian (realSlopes xs ys)) xs ys)),
                          Fin (upperMedian (realSlopes xs ys))]"
proof -
  have ne: "xs \<noteq> []" using assms(2) by auto
  from fitTheilSen_Fin[OF assms(1,3) ne] obtain fit where
    fit: "fitTheilSen (map Fin xs) (map Fin ys) = Inr fit"
    "fitCoeffs fit = [Fin (upperMedian (realIntercepts (upperMedian (realSlopes xs ys)) xs ys)),
                         Fin (upperMedian (realSlopes xs ys))]" by blast
  have idx: "validIndices (map Fin xs) (map Fin ys) linear_theil_sen = [0..<length (map Fin xs)]"
    by (simp add: validIndices_def)
  have yF: "map (elemAt (map Fin ys)) [0..<length (map Fin xs)] = map Fin ys"
    using assms(1) by (intro map_elemAt_upt_same) simp
  show ?thesis
    apply (subst calculateRegression.simps)
    unfolding idx Let_def map_elemAt_upt yF
    using assms(2) fit
    by (simp add: standardFit_def transformX_def transformY_def)
qed

lemma exampleSlopes_upperMedian: "upperMedian (realSlopes [0, 1, 2, 3] [0, 1, 2, 4]) = 4 / 3"
  by code_simp

lemma exampleSlopes_median: "median (realSlopes [0, 1, 2, 3] [0, 1, 2, 4]) = 7 / 6"
  by code_simp

text \<open>
  Claim C5, as amended. For \<open>n \<ge> 3\<close> finite points with at least one pair of distinct
  abscissas, the Theil-Sen fit returns a result whose slope coefficient is the element at
  index \<open>m div 2\<close> of the ascending pairwise slopes (\<open>m\<close> their number) and whose intercept
  coefficient is the element at index \<open>n div 2\<close> of the ascending values
  \<open>y_i - slope * x_i\<close>. For an odd count that element is the median.
\<close>

theorem theilSen_coefficients:
  assumes "length ys = length xs" and "3 \<le> length xs" and "realSlopes xs ys \<noteq> []"
  shows "\<exists>r. calculateRegression (map Fin xs) (map Fin ys) linear_theil_sen u c s = Inr r
     \<and> coefficients r = [Fin (upperMedian (realIntercepts (upperMedian (realSlopes xs ys)) xs ys)),
                          Fin (upperMedian (realSlopes xs ys))]
     \<and> (odd (length (realSlopes xs ys))
          \<longrightarrow> upperMedian (realSlopes xs ys) = median (realSlopes xs ys))
     \<and> (odd (length xs)
          \<longrightarrow> upperMedian (realIntercepts (upperMedian (realSlopes xs ys)) xs ys)
              = median (realIntercepts (upperMedian (realSlopes xs ys)) xs ys))"
proof -
  have "odd (length xs) \<Longrightarrow> odd (length (realIntercepts v xs ys))" for v
    using assms(1) by (simp add: realIntercepts_def)
  then show ?thesis
    using calculateRegression_theilSen[OF assms, of u c s] by (auto simp: upperMedian_odd)
qed

theorem theilSen_coefficients_witness:
  "length [0, 1, 2, 4 :: real] = length [0, 1, 2, 3 :: real] \<and> 3 \<le> length [0, 1, 2, 3 :: real]
   \<and> realSlopes [0, 1, 2, 3] [0, 1, 2, 4] \<noteq> []
   \<and> map_sum id coefficients
        (calculateRegression (map Fin [0, 1, 2, 3]) (map Fin [0, 1, 2, 4]) linear_theil_sen False
           defaultChoice False)
      = Inr [Fin 0, Fin (4 / 3)]"
proof -
  have ne: "realSlopes [0, 1, 2, 3] [0, 1, 2, 4] \<noteq> []" by code_simp
  have i: "upperMedian (realIntercepts (4 / 3) [0, 1, 2, 3] [0, 1, 2, 4]) = 0" by code_simp
  from theilSen_coefficients[of "[0, 1, 2, 4]" "[0, 1, 2, 3]" False defaultChoice False] ne
  show ?thesis
    by (auto simp: exampleSlopes_upperMedian i)
qed

text \<open>
  Claim C5 as stated fails for an even count: the points \<open>(0,0), (1,1), (2,2), (3,4)\<close> have
  the six slopes \<open>1, 1, 1, 4/3, 3/2, 2\<close>, whose median is \<open>7/6\<close>; the code takes \<open>4/3\<close>.
\<close>

theorem theilSen_not_standard_median:
  "map_sum id coefficients
     (calculateRegression (map Fin [0, 1, 2, 3]) (map Fin [0, 1, 2, 4]) linear_theil_sen False
        defaultChoice False)
   \<noteq> Inr (map Fin (specTheilSen [0, 1, 2, 3] [0, 1, 2, 4]))"
proof -
  have ne: "realSlopes [0, 1, 2, 3] [0, 1, 2, 4] \<noteq> []" by code_simp
  from calculateRegression_theilSen[of "[0, 1, 2, 4]" "[0, 1, 2, 3]" False defaultChoice False] ne
  obtain r where r: "calculateRegression (map Fin [0, 1, 2, 3]) (map Fin [0, 1, 2, 4]) linear_theil_sen False
        defaultChoice False = Inr r"
    "coefficients r ! 1 = Fin (upperMedian (realSlopes [0, 1, 2, 3] [0, 1, 2, 4]))"
    by auto
  have "map Fin (specTheilSen [0, 1, 2, 3] [0, 1, 2, 4]) ! 1 = Fin (median (realSlopes [0, 1, 2, 3] [0, 1, 2, 4]))"
    by (simp add: specTheilSen_def Let_def)
  then have "coefficients r \<noteq> map Fin (specTheilSen [0, 1, 2, 3] [0, 1, 2, 4])"
    using r(2) by (auto simp: exampleSlopes_upperMedian exampleSlopes_median)
  then show ?thesis using r(1) by simp
qed

section \<open>Model selection\<close>

lemma candidateStep_no_error:
  "m = linear_pearson \<or> m = polynomial_2nd \<Longrightarrow> \<exists>v. candidateStep xv yv m (Inr a) = Inr v"
  using calculateRegression_linear[of xv yv False defaultChoice False]
  by (auto simp: candidateStep_def calculateRegression_skip Let_def)

lemma referenceMinAICc_no_error: "\<exists>v. referenceMinAICc xv yv = Inr v"
proof -
  obtain a where a: "candidateStep xv yv linear_pearson (Inr PInf) = Inr a"
    using candidateStep_no_error by blast
  obtain b where "candidateStep xv yv polynomial_2nd (Inr a) = Inr b"
    using candidateStep_no_error by blast
  then show ?thesis by (simp add: referenceMinAICc_def a)
qed

lemma markBestFit_flag:
  assumes "isParametricValid r" and "vm \<noteq> piecewise_mixed" and "vm \<noteq> linear_theil_sen"
    and "textTruthy (recommendationText r)"
  shows "isBestFit (markBestFit vm a r) = Some (jle (jsub (aicc r) a) (Fin 4) \<and> jgt (rSquared r) (Fin 0.95))
        \<and> recommendationText (markBestFit vm a r) = recommendationText r"
  using assms by (simp add: markBestFit_def textOr_def Let_def)

lemma markBestFit_exempt:
  assumes "\<not> (isParametricValid r \<and> vm \<noteq> piecewise_mixed \<and> vm \<noteq> linear_theil_sen)"
  shows "markBestFit vm a r = r"
  using assms by (auto simp add: markBestFit_def)

lemma standardResult_aicc:
  "aicc (standardResult t xc yc fit m) =
     fst (snd (calculateAIC (ofNat (length xc)) (ofNat (numParams fit + 1))
                 (sumOf (\<lambda>r. jmul r r) (fitResiduals fit))))"
  by (simp add: standardResult_def Let_def)

lemma standardResult_quality:
  "t \<noteq> linear_theil_sen \<Longrightarrow>
   (modelQuality (standardResult t xc yc fit m) \<noteq> INVALID) = isParametricValid (standardResult t xc yc fit m)"
  by (simp add: standardResult_def Let_def split: option.splits)

lemma aicc_no_margin: "\<not> jlt (fst (snd (calculateAIC (Fin 5) (Fin 4) s))) v"
proof -
  have "fst (snd (calculateAIC (Fin 5) (Fin 4) s)) = PInf \<or> fst (snd (calculateAIC (Fin 5) (Fin 4) s)) = NaN"
    (is "?a = PInf \<or> ?a = NaN")
  proof -
    obtain w where "?a = jadd w PInf"
      by (simp add: calculateAIC_def Let_def jsub_def signedInf_def)
    then show ?thesis by (cases w) simp_all
  qed
  then show ?thesis by (cases v) auto
qed

lemma standardResult_text_cases:
  assumes "t \<noteq> linear_theil_sen" and "isParametricValid (standardResult t xc yc fit m)"
  shows "recommendationText (standardResult t xc yc fit m) = Literal ''Modelo valido.''
       \<or> recommendationText (standardResult t xc yc fit m) = Literal ''Test de Mandel sugiere no linealidad.''"
  using assms by (simp add: standardResult_def Let_def split: option.splits)

text \<open>
  The reference AICc is the least AICc among the fits of the two reference families that
  are parametrically valid and not \<open>INVALID\<close>, and \<open>Infinity\<close> when there is none: no such
  fit lies strictly below it, and it is \<open>Infinity\<close> or the AICc of one of them.
\<close>

lemma jlt_asym: "jlt a b \<Longrightarrow> \<not> jlt b a"
  by (cases a; cases b) auto

lemma jlt_top: "\<not> jlt a PInf \<Longrightarrow> \<not> jlt a b"
  by (cases a; cases b) auto

lemma reference_fits:
  assumes "m = linear_pearson \<or> m = polynomial_2nd"
  shows "\<exists>r. calculateRegression xv yv m False defaultChoice False = Inr r"
  using assms calculateRegression_linear[of xv yv False defaultChoice False]
  by (auto simp: calculateRegression_skip Let_def)

lemma candidateStep_value:
  assumes "calculateRegression xv yv m False defaultChoice False = Inr r"
  shows "candidateStep xv yv m (Inr a) =
     Inr (if isParametricValid r \<and> modelQuality r \<noteq> INVALID \<and> jlt (aicc r) a then aicc r else a)"
  using assms by (simp add: candidateStep_def)

lemma referenceMinAICc_value:
  assumes "calculateRegression xv yv linear_pearson False defaultChoice False = Inr rl"
    and "calculateRegression xv yv polynomial_2nd False defaultChoice False = Inr rp"
  shows "referenceMinAICc xv yv =
     Inr (let a = (if isParametricValid rl \<and> modelQuality rl \<noteq> INVALID \<and> jlt (aicc rl) PInf
                   then aicc rl else PInf)
          in if isParametricValid rp \<and> modelQuality rp \<noteq> INVALID \<and> jlt (aicc rp) a
             then aicc rp else a)"
  by (simp add: referenceMinAICc_def candidateStep_value[OF assms(1)] candidateStep_value[OF assms(2)]
      Let_def)

lemma referenceMinAICc_least:
  assumes "referenceMinAICc xv yv = Inr a"
    and "m = linear_pearson \<or> m = polynomial_2nd"
    and "calculateRegression xv yv m False defaultChoice False = Inr r"
    and "isParametricValid r" and "modelQuality r \<noteq> INVALID"
  shows "\<not> jlt (aicc r) a"
proof -
  obtain rl where rl: "calculateRegression xv yv linear_pearson False defaultChoice False = Inr rl"
    using reference_fits by blast
  obtain rp where rp: "calculateRegression xv yv polynomial_2nd False defaultChoice False = Inr rp"
    using reference_fits by blast
  note v = assms(1)[unfolded referenceMinAICc_value[OF rl rp] Let_def]
  from assms(2) show ?thesis
  proof
    assume "m = linear_pearson"
    then have "r = rl" using assms(3) rl by simp
    then show ?thesis
      using v assms(4,5) jlt_asym[of "aicc rp" "aicc rl"] jlt_asym[of "aicc rl" "aicc rl"]
        jlt_top[of "aicc rl"]
      by (auto split: if_splits)
  next
    assume "m = polynomial_2nd"
    then have "r = rp" using assms(3) rp by simp
    then show ?thesis
      using v assms(4,5) jlt_asym[of "aicc rp" "aicc rp"]
      by (auto split: if_splits)
  qed
qed

lemma referenceMinAICc_attained:
  assumes "referenceMinAICc xv yv = Inr a"
  shows "a = PInf \<or> (\<exists>m r. (m = linear_pearson \<or> m = polynomial_2nd)
           \<and> calculateRegression xv yv m False defaultChoice False = Inr r
           \<and> isParametricValid r \<and> modelQuality r \<noteq> INVALID \<and> a = aicc r)"
proof -
  obtain rl where rl: "calculateRegression xv yv linear_pearson False defaultChoice False = Inr rl"
    using reference_fits by blast
  obtain rp where rp: "calculateRegression xv yv polynomial_2nd False defaultChoice False = Inr rp"
    using reference_fits by blast
  note v = assms(1)[unfolded referenceMinAICc_value[OF rl rp] Let_def]
  show ?thesis
  proof (cases "a = PInf")
    case False
    then have "a = aicc rl \<and> isParametricValid rl \<and> modelQuality rl \<noteq> INVALID
        \<or> a = aicc rp \<and> isParametricValid rp \<and> modelQuality rp \<noteq> INVALID"
      using v by (auto split: if_splits)
    then show ?thesis using rl rp by blast
  qed simp
qed

text \<open>
  The flag of the chosen value model: \<open>true\<close> exactly when its AICc exceeds the reference
  AICc by at most 4 and its \<open>R^2\<close> exceeds 0.95, when the fit is parametrically valid and
  the family is neither Theil-Sen nor the flexible split; no flag otherwise.
\<close>

lemma fitStandardModels_flag:
  assumes "fitStandardModels points valModel uncModel vs us = Inr (valueReg, uncReg)"
  shows "\<exists>minAICc reg0.
      referenceMinAICc (map indication points) (map referenceValue points) = Inr minAICc
    \<and> calculateRegression (map indication points) (map referenceValue points) valModel False vs False
        = Inr reg0
    \<and> (if isParametricValid reg0 \<and> valModel \<noteq> piecewise_mixed \<and> valModel \<noteq> linear_theil_sen
        then isBestFit valueReg
               = Some (jle (jsub (aicc reg0) minAICc) (Fin 4) \<and> jgt (rSquared reg0) (Fin 0.95))
        else valueReg = reg0 \<and> isBestFit valueReg = None)"
proof -
  obtain a where a: "referenceMinAICc (map indication points) (map referenceValue points) = Inr a"
    using referenceMinAICc_no_error by blast
  from assms obtain r0 where r0:
    "calculateRegression (map indication points) (map referenceValue points) valModel False vs False = Inr r0"
    and v: "valueReg = markBestFit valModel a r0"
    by (auto simp: fitStandardModels_def a Let_def split: sum.splits)
  have wf: "wellFormed r0" using calculateRegression_good[OF r0] .
  show ?thesis
  proof (cases "isParametricValid r0 \<and> valModel \<noteq> piecewise_mixed \<and> valModel \<noteq> linear_theil_sen")
    case True
    show ?thesis
      using True a r0 v wf markBestFit_flag[of r0 valModel a]
      by (intro exI[of _ a] exI[of _ r0]) (simp add: wellFormed_def)
  next
    case False
    show ?thesis
      using False a r0 v wf markBestFit_exempt[OF False, of a]
      by (intro exI[of _ a] exI[of _ r0]) (simp add: wellFormed_def)
  qed
qed

lemma example_maps:
  "map indication examplePoints = exampleX" "map referenceValue examplePoints = exampleY"
  by (simp_all add: examplePoints_def exampleX_def exampleY_def)

lemma example_residuals:
  "fitResiduals (fitLeastSquares linear_pearson exampleX exampleY)
     = [Fin (4 / 5), Fin 0, Fin (- (4 / 5)), Fin (- (8 / 5)), Fin (8 / 5)]"
  by (simp add: fitLeastSquares_def exampleX_def exampleY_def Let_def jsum_def sumOf_def sumOfIdx_def
      mapIdx_def ofNat_def jsub_def elemAt_def upt_rec)

lemma example_numParams: "numParams (fitLeastSquares t xc yc) = 2"
  by (simp add: fitLeastSquares_def Let_def)

lemma example_rSquared:
  "rSquared (standardResult linear_pearson exampleX exampleY
       (fitLeastSquares linear_pearson exampleX exampleY) m) = Fin (81 / 97)"
  unfolding standardResult_rSquared example_residuals
  by (simp add: exampleX_def exampleY_def jsum_def sumOf_def ofNat_def jsub_def jor_def truthy_def
      power2_eq_square)

lemma example_valid:
  "isParametricValid (standardResult linear_pearson exampleX exampleY
       (fitLeastSquares linear_pearson exampleX exampleY) m)"
  unfolding standardResult_valid example_residuals example_numParams
  by (simp add: exampleX_def exampleY_def jsum_def sumOf_def ofNat_def jsub_def jor_def truthy_def
      getFCrit_def jgt_def Let_def power2_eq_square)

lemma example_lengths: "length exampleX = 5" "length exampleY = length exampleX"
  by (simp_all add: exampleX_def exampleY_def)

lemma example_aicc:
  "aicc (standardResult linear_pearson exampleX exampleY
       (fitLeastSquares linear_pearson exampleX exampleY) m) = Fin (5 * ln (32 / 25) + 30)"
  unfolding standardResult_aicc example_residuals example_numParams
  by (simp add: exampleX_def calculateAIC_def jsum_def sumOf_def ofNat_def jsub_def Let_def)

lemma example_minAICc: "referenceMinAICc exampleX exampleY = Inr (Fin (5 * ln (32 / 25) + 30))"
proof -
  obtain m where m: "calculateRegression exampleX exampleY linear_pearson False defaultChoice False
      = Inr (standardResult linear_pearson exampleX exampleY
                 (fitLeastSquares linear_pearson exampleX exampleY) m)"
    using calculateRegression_linear_same[of exampleY exampleX False defaultChoice False] example_lengths
    by auto
  have l: "candidateStep exampleX exampleY linear_pearson (Inr PInf) = Inr (Fin (5 * ln (32 / 25) + 30))"
    by (simp add: candidateStep_def m example_valid standardResult_quality example_aicc)
  have i: "validIndices exampleX exampleY polynomial_2nd = [0..<5]"
    by (simp add: validIndices_def example_lengths)
  have p: "candidateStep exampleX exampleY polynomial_2nd (Inr (Fin (5 * ln (32 / 25) + 30)))
            = Inr (Fin (5 * ln (32 / 25) + 30))"
    unfolding candidateStep_def
    by (simp add: calculateRegression_skip i Let_def standardResult_aicc fitPolynomial_def
        transformX_def ofNat_def aicc_no_margin del: upt.simps)
  show ?thesis by (simp add: referenceMinAICc_def l p)
qed

lemma example_fit:
  "\<exists>a m u. fitStandardModels examplePoints linear_pearson linear_pearson defaultChoice defaultChoice
     = Inr (markBestFit linear_pearson a
              (standardResult linear_pearson exampleX exampleY
                 (fitLeastSquares linear_pearson exampleX exampleY) m), u)"
proof -
  obtain a where a: "referenceMinAICc exampleX exampleY = Inr a"
    using referenceMinAICc_no_error by blast
  obtain m where m: "calculateRegression exampleX exampleY linear_pearson False defaultChoice False
      = Inr (standardResult linear_pearson exampleX exampleY
                 (fitLeastSquares linear_pearson exampleX exampleY) m)"
    using calculateRegression_linear_same[of exampleY exampleX False defaultChoice False] example_lengths
    by auto
  let ?xu = "map referenceValue examplePoints"
  let ?yu = "map (\<lambda>p. jdiv (uncertainty p) (jor (coverageFactor p) (Fin 2))) examplePoints"
  obtain u where u: "calculateRegression ?xu ?yu linear_pearson True defaultChoice False = Inr u"
    using calculateRegression_linear[of ?xu ?yu True defaultChoice False]
    by (auto simp: Let_def split: if_splits)
  show ?thesis
    unfolding fitStandardModels_def Let_def example_maps a
    using m u[unfolded example_maps] by (intro exI[of _ a] exI[of _ m] exI[of _ u]) simp
qed

lemma example_flag:
  "isBestFit (markBestFit linear_pearson a
       (standardResult linear_pearson exampleX exampleY
          (fitLeastSquares linear_pearson exampleX exampleY) m)) = Some False
   \<and> \<not> namesGap (recommendationText (markBestFit linear_pearson a
       (standardResult linear_pearson exampleX exampleY
          (fitLeastSquares linear_pearson exampleX exampleY) m)))
   \<and> isParametricValid (markBestFit linear_pearson a
       (standardResult linear_pearson exampleX exampleY
          (fitLeastSquares linear_pearson exampleX exampleY) m))"
  using markBestFit_flag[OF example_valid[of m], of linear_pearson a]
  by (simp add: example_rSquared jgt_def standardResult_text_literal)
     (simp add: markBestFit_def example_valid example_rSquared jgt_def Let_def)

text \<open>
  Claim C6 does not hold of the code in its last part. For the five sample points and the
  linear family the reference AICc is \<open>5 ln (32/25) + 30\<close>, the AICc of the linear fit itself;
  the fit is parametrically valid, its \<open>R^2\<close> is \<open>81/97\<close>, below 0.95, and it is flagged
  \<open>isBestFit = false\<close>; but its recommendation is the text that \<open>calculateRegression\<close>
  gave, not the text that names the AICc gap: that text is written only in place of an
  empty recommendation, and \<open>calculateRegression\<close> never leaves the recommendation empty.
\<close>

theorem fitStandardModels_gap_not_named:
  "referenceMinAICc (map indication examplePoints) (map referenceValue examplePoints)
     = Inr (Fin (5 * ln (32 / 25) + 30))
   \<and> map_option isParametricValid (valueRegOf (fitStandardModels examplePoints linear_pearson linear_pearson
        defaultChoice defaultChoice)) = Some True
   \<and> map_option aicc (valueRegOf (fitStandardModels examplePoints linear_pearson linear_pearson
        defaultChoice defaultChoice)) = Some (Fin (5 * ln (32 / 25) + 30))
   \<and> map_option rSquared (valueRegOf (fitStandardModels examplePoints linear_pearson linear_pearson
        defaultChoice defaultChoice)) = Some (Fin (81 / 97))
   \<and> map_option isBestFit (valueRegOf (fitStandardModels examplePoints linear_pearson linear_pearson
        defaultChoice defaultChoice)) = Some (Some False)
   \<and> map_option (namesGap \<circ> recommendationText)
        (valueRegOf (fitStandardModels examplePoints linear_pearson linear_pearson
           defaultChoice defaultChoice)) = Some False
   \<and> map_option recommendationText
        (valueRegOf (fitStandardModels examplePoints linear_pearson linear_pearson
           defaultChoice defaultChoice))
       \<in> {Some (Literal ''Modelo valido.''), Some (Literal ''Test de Mandel sugiere no linealidad.'')}"
proof -
  from example_fit obtain a m u where
    "fitStandardModels examplePoints linear_pearson linear_pearson defaultChoice defaultChoice
     = Inr (markBestFit linear_pearson a
              (standardResult linear_pearson exampleX exampleY
                 (fitLeastSquares linear_pearson exampleX exampleY) m), u)" by blast
  then show ?thesis
    using example_flag[of a m] example_minAICc
      standardResult_text_cases[OF _ example_valid[of m]]
      markBestFit_flag[OF example_valid[of m], of linear_pearson a]
    by (auto simp add: valueRegOf_def example_maps example_aicc example_rSquared
        markBestFit_def Let_def)
qed

section \<open>Expanded uncertainty\<close>








section \<open>The input arrays of the regression\<close>

text \<open>
  A step keeps the first \<open>n\<close> cells of the store when the store it returns is at least
  \<open>n\<close> cells long and agrees with the store it was given on the first \<open>n\<close> cells. \<open>alloc\<close>
  does, and \<open>put\<close> does when the address it writes to is \<open>n\<close> or higher; every address that
  the engine writes to comes from an \<open>alloc\<close> of the same call.
\<close>

lemma alloc_simps: "fst (alloc c h) = length h" "snd (alloc c h) = h @ [c]"
  by (simp_all add: alloc_def)

lemma alloc_frame [simp]:
  assumes "n \<le> length h"
  shows "n \<le> length (snd (alloc c h))" "take n (snd (alloc c h)) = take n h"
    "n \<le> fst (alloc c h)"
  using assms by (simp_all add: alloc_def)

lemma put_length [simp]: "length (put a c h) = length h"
  by (simp add: put_def)

lemma put_take [simp]: "n \<le> a \<Longrightarrow> take n (put a c h) = take n h"
  by (simp add: put_def)

lemma fold_put_length: "length (fold (\<lambda>p g. put (fst p) (NumArr (snd p)) g) ps h) = length h"
  by (induction ps arbitrary: h) simp_all

lemma fold_put_take:
  "\<forall>p \<in> set ps. n \<le> fst p \<Longrightarrow> take n (fold (\<lambda>p g. put (fst p) (NumArr (snd p)) g) ps h) = take n h"
  by (induction ps arbitrary: h) simp_all

lemma writeRows_length [simp]: "length (writeRows rows cs h) = length h"
  by (simp add: writeRows_def fold_put_length)

lemma writeRows_take [simp]:
  "list_all ((\<le>) n) rows \<Longrightarrow> take n (writeRows rows cs h) = take n h"
  unfolding writeRows_def
  by (rule fold_put_take) (auto dest: set_zip_leftD simp: list_all_iff)

lemma rowStep_simps [simp]:
  "fst (rowStep w i p) = fst p @ [length (snd p)]"
  "snd (rowStep w i p) = snd p @ [NumArr (replicate w (Fin 0))]"
  by (simp_all add: rowStep_def Let_def alloc_simps)

lemma allocRows_aux:
  "n \<le> length (snd p) \<Longrightarrow> \<forall>a \<in> set (fst p). n \<le> a \<Longrightarrow>
     n \<le> length (snd (fold (rowStep w) js p))
     \<and> take n (snd (fold (rowStep w) js p)) = take n (snd p)
     \<and> (\<forall>a \<in> set (fst (fold (rowStep w) js p)). n \<le> a)"
proof (induction js arbitrary: p)
  case Nil
  then show ?case by simp
next
  case (Cons j js)
  have 1: "n \<le> length (snd (rowStep w j p))" using Cons.prems(1) by simp
  have 2: "\<forall>a \<in> set (fst (rowStep w j p)). n \<le> a" using Cons.prems by simp
  have 3: "take n (snd (rowStep w j p)) = take n (snd p)" using Cons.prems(1) by simp
  from Cons.IH[OF 1 2] 3 show ?case by simp
qed

lemma allocRows_frame [simp]:
  assumes "n \<le> length h"
  shows "n \<le> length (snd (allocRows m w h))" "take n (snd (allocRows m w h)) = take n h"
    "list_all ((\<le>) n) (fst (allocRows m w h))"
  using allocRows_aux[of n "([], h)" w "[0..<m]"] assms
  unfolding allocRows_def by (simp_all add: list_all_iff)

lemma pushAll_frame [simp]:
  "length (pushAll a vs h) = length h"
  "n \<le> a \<Longrightarrow> take n (pushAll a vs h) = take n h"
  by (simp_all add: pushAll_def)

lemma filterOnStore_frame:
  assumes "n \<le> length h"
  shows "n \<le> length (snd (filterOnStore ax ay t h))"
    "take n (snd (filterOnStore ax ay t h)) = take n h"
    "n \<le> fst (fst (filterOnStore ax ay t h))" "n \<le> snd (fst (filterOnStore ax ay t h))"
proof -
  define a0 where "a0 = alloc (IdxArr (map int [0..<length (nums h ax)])) h"
  have 0: "n \<le> length (snd a0)" "take n (snd a0) = take n h"
    using assms by (simp_all add: a0_def)
  obtain a1 where f: "filterOnStore ax ay t h =
      (let aX = alloc (NumArr (map (\<lambda>i. elemAt (nums (snd a1) ax) (nat i)) (idxs (snd a1) (fst a1)))) (snd a1);
           aY = alloc (NumArr (map (\<lambda>i. elemAt (nums (snd aX) ay) (nat i)) (idxs (snd aX) (fst a1)))) (snd aX)
       in ((fst aX, fst aY), snd aY))"
    and 1: "n \<le> length (snd a1)" "take n (snd a1) = take n h"
  proof (cases "t = power \<or> t = logarithmic \<or> t = exponential")
    case True
    show ?thesis
      by (rule that[where ?a1.0 = "let marked = alloc (IdxArr (map (\<lambda>i.
                          if t = logarithmic \<and> jle (elemAt (nums (snd a0) ax) i) (Fin 0) then - 1
                          else if t = power \<and> (jle (elemAt (nums (snd a0) ax) i) (Fin 0)
                                   \<or> jle (elemAt (nums (snd a0) ay) i) (Fin 0)) then - 1
                          else if t = exponential \<and> jle (elemAt (nums (snd a0) ay) i) (Fin 0) then - 1
                          else int i) [0..<length (nums (snd a0) ax)])) (snd a0)
                  in alloc (IdxArr (filter (\<lambda>i. i \<noteq> - 1) (idxs (snd marked) (fst marked)))) (snd marked)"])
         (use True 0 in \<open>simp_all only: filterOnStore_def Let_def a0_def if_True alloc_frame\<close>)
  next
    case False
    show ?thesis
      by (rule that[where ?a1.0 = a0])
         (use False 0 in \<open>simp_all only: filterOnStore_def Let_def a0_def if_False\<close>)
  qed
  show "n \<le> length (snd (filterOnStore ax ay t h))"
    "take n (snd (filterOnStore ax ay t h)) = take n h"
    "n \<le> fst (fst (filterOnStore ax ay t h))" "n \<le> snd (fst (filterOnStore ax ay t h))"
    unfolding f Let_def using 1 by (simp_all only: fst_conv snd_conv alloc_frame)
qed

lemma put_frame:
  assumes "n \<le> length h" and "n \<le> a"
  shows "n \<le> length (put a c h)" "take n (put a c h) = take n h"
  using assms by simp_all

lemma pushAll_frame2:
  assumes "n \<le> length h" and "n \<le> a"
  shows "n \<le> length (pushAll a vs h)" "take n (pushAll a vs h) = take n h"
  using assms by simp_all

lemma writeRows_frame:
  assumes "n \<le> length h" and "list_all ((\<le>) n) rows"
  shows "n \<le> length (writeRows rows cs h)" "take n (writeRows rows cs h) = take n h"
  using assms by simp_all

lemmas frame_basic = alloc_frame put_frame pushAll_frame2 writeRows_frame allocRows_frame
  fst_conv snd_conv Let_def simp_thms

lemma solveLinearSystemOnStore_frame:
  assumes "n \<le> length h" and "list_all ((\<le>) n) rows" and "n \<le> aB"
  shows "n \<le> length (snd (solveLinearSystemOnStore rows aB h))"
    "take n (snd (solveLinearSystemOnStore rows aB h)) = take n h"
    "n \<le> fst (solveLinearSystemOnStore rows aB h)"
  using assms by (simp_all only: solveLinearSystemOnStore_def frame_basic)

lemma residualsOnStore_frame:
  assumes "n \<le> length h" and "n \<le> aPreds"
  shows "n \<le> length (snd (residualsOnStore preds ayC aPreds h))"
    "take n (snd (residualsOnStore preds ayC aPreds h)) = take n h"
  using assms by (simp_all only: residualsOnStore_def frame_basic)

lemma powerSumsOnStore_frame:
  assumes "n \<le> length h"
  shows "n \<le> length (snd (powerSumsOnStore k axC ayC h))"
    "take n (snd (powerSumsOnStore k axC ayC h)) = take n h"
  using assms by (simp_all only: powerSumsOnStore_def frame_basic)

lemma normalEquationsOnStore_frame:
  assumes "n \<le> length h"
  shows "n \<le> length (snd (normalEquationsOnStore m aXS aYS h))"
    "take n (snd (normalEquationsOnStore m aXS aYS h)) = take n h"
    "list_all ((\<le>) n) (fst (fst (normalEquationsOnStore m aXS aYS h)))"
    "n \<le> snd (fst (normalEquationsOnStore m aXS aYS h))"
  using assms by (simp_all only: normalEquationsOnStore_def frame_basic)

lemma fitPolynomialOnStore_frame:
  assumes "n \<le> length h" and "n \<le> aPreds"
  shows "n \<le> length (snd (fitPolynomialOnStore t axC ayC aPreds h))"
    "take n (snd (fitPolynomialOnStore t axC ayC aPreds h)) = take n h"
  using assms
  by (simp_all only: fitPolynomialOnStore_def frame_basic powerSumsOnStore_frame
      normalEquationsOnStore_frame solveLinearSystemOnStore_frame residualsOnStore_frame)

lemma sortedSlopesOnStore_frame:
  assumes "n \<le> length h"
  shows "n \<le> length (snd (sortedSlopesOnStore axC ayC h))"
    "take n (snd (sortedSlopesOnStore axC ayC h)) = take n h"
  using assms by (simp_all only: sortedSlopesOnStore_def frame_basic)

lemma sortedInterceptsOnStore_frame:
  assumes "n \<le> length h"
  shows "n \<le> length (snd (sortedInterceptsOnStore v axC ayC h))"
    "take n (snd (sortedInterceptsOnStore v axC ayC h)) = take n h"
  using assms by (simp_all only: sortedInterceptsOnStore_def frame_basic)

lemma fitTheilSenOnStore_frame:
  assumes "n \<le> length h" and "n \<le> aPreds"
  shows "n \<le> length (snd (fitTheilSenOnStore axC ayC aPreds h))"
    "take n (snd (fitTheilSenOnStore axC ayC aPreds h)) = take n h"
  using assms
  by (simp_all only: fitTheilSenOnStore_def frame_basic sortedSlopesOnStore_frame
      sortedInterceptsOnStore_frame residualsOnStore_frame)

lemma coefficientsOnStore_frame:
  assumes "n \<le> length h"
  shows "n \<le> length (snd (coefficientsOnStore t a b h))"
    "take n (snd (coefficientsOnStore t a b h)) = take n h"
  using assms by (simp_all only: coefficientsOnStore_def frame_basic split: if_split)

lemma fitLeastSquaresOnStore_frame:
  assumes "n \<le> length h" and "n \<le> aPreds"
  shows "n \<le> length (snd (fitLeastSquaresOnStore t axC ayC aPreds h))"
    "take n (snd (fitLeastSquaresOnStore t axC ayC aPreds h)) = take n h"
  using assms
  by (simp_all only: fitLeastSquaresOnStore_def frame_basic coefficientsOnStore_frame
      residualsOnStore_frame)

lemma workingCopiesOnStore_frame:
  assumes "n \<le> length h"
  shows "n \<le> length (snd (workingCopiesOnStore t axF ayF h))"
    "take n (snd (workingCopiesOnStore t axF ayF h)) = take n h"
    "n \<le> fst (fst (workingCopiesOnStore t axF ayF h))"
  using assms by (simp_all only: workingCopiesOnStore_def frame_basic split: if_split)

lemma standardFitOnStore_frame:
  assumes "n \<le> length h"
  shows "n \<le> length (snd (standardFitOnStore t axF ayF h))"
    "take n (snd (standardFitOnStore t axF ayF h)) = take n h"
  using assms
  by (simp_all only: standardFitOnStore_def frame_basic workingCopiesOnStore_frame
      fitPolynomialOnStore_frame fitTheilSenOnStore_frame fitLeastSquaresOnStore_frame split: if_split)

lemma getRanksOnStore_frame:
  assumes "n \<le> length h"
  shows "n \<le> length (snd (getRanksOnStore k a h))"
    "take n (snd (getRanksOnStore k a h)) = take n h"
  using assms by (simp_all only: getRanksOnStore_def frame_basic)

lemma andersonDarlingOnStore_frame:
  assumes "n \<le> length h"
  shows "n \<le> length (andersonDarlingOnStore a h)"
    "take n (andersonDarlingOnStore a h) = take n h"
  using assms by (simp_all only: andersonDarlingOnStore_def frame_basic split: if_split)

lemma validationOnStore_frame:
  assumes "n \<le> length h"
  shows "n \<le> length (validationOnStore t axC ayC aRes h)"
    "take n (validationOnStore t axC ayC aRes h) = take n h"
  using assms
  by (simp_all only: validationOnStore_def frame_basic getRanksOnStore_frame
      andersonDarlingOnStore_frame split: if_split)

text \<open>
  The recursion is three calls deep at most: a call without a Mandel test and without a
  split, the Mandel test, which makes two such calls, a linear fit with its Mandel test,
  and the flexible split, whose segments are fitted without the Mandel test.
\<close>

lemmas frame_steps = frame_basic filterOnStore_frame standardFitOnStore_frame validationOnStore_frame

lemma calculateRegressionOnStore_frame_plain:
  assumes "n \<le> length h" and nm: "t \<noteq> piecewise_mixed" and sk: "t \<noteq> linear_pearson \<or> s"
  shows "n \<le> length (snd (calculateRegressionOnStore ax ay t u c s h))
       \<and> take n (snd (calculateRegressionOnStore ax ay t u c s h)) = take n h"
proof -
  have m: "(t = linear_pearson \<and> 4 \<le> k \<and> \<not> s) = False" for k using sk by auto
  show ?thesis
    using assms(1)
    by (subst (1 2) calculateRegressionOnStore.simps)
       (simp only: nm m if_False frame_steps split: if_split sum.split)
qed

lemma calculateMandelTestOnStore_frame:
  assumes "n \<le> length h"
  shows "n \<le> length (snd (calculateMandelTestOnStore ax ay h))
       \<and> take n (snd (calculateMandelTestOnStore ax ay h)) = take n h"
proof -
  have l: "n \<le> length g \<Longrightarrow>
      n \<le> length (snd (calculateRegressionOnStore ax ay linear_pearson False defaultChoice True g))
    \<and> take n (snd (calculateRegressionOnStore ax ay linear_pearson False defaultChoice True g)) = take n g"
    for g by (rule calculateRegressionOnStore_frame_plain) simp_all
  have q: "n \<le> length g \<Longrightarrow>
      n \<le> length (snd (calculateRegressionOnStore ax ay polynomial_2nd False defaultChoice False g))
    \<and> take n (snd (calculateRegressionOnStore ax ay polynomial_2nd False defaultChoice False g)) = take n g"
    for g by (rule calculateRegressionOnStore_frame_plain) simp_all
  show ?thesis
    using assms
    by (subst (1 2) calculateMandelTestOnStore.simps)
       (simp only: frame_basic l[THEN conjunct1] l[THEN conjunct2] q[THEN conjunct1] q[THEN conjunct2]
          split: if_split sum.split)
qed

lemma calculateRegressionOnStore_frame_standard:
  assumes "n \<le> length h" and nm: "t \<noteq> piecewise_mixed"
  shows "n \<le> length (snd (calculateRegressionOnStore ax ay t u c s h))
       \<and> take n (snd (calculateRegressionOnStore ax ay t u c s h)) = take n h"
  using assms(1)
  by (subst (1 2) calculateRegressionOnStore.simps)
     (simp only: nm if_False frame_steps calculateMandelTestOnStore_frame[THEN conjunct1]
        calculateMandelTestOnStore_frame[THEN conjunct2] split: if_split sum.split)

lemma calculateRegressionOnStore_frame:
  assumes "n \<le> length h"
  shows "n \<le> length (snd (calculateRegressionOnStore ax ay t u c s h))
       \<and> take n (snd (calculateRegressionOnStore ax ay t u c s h)) = take n h"
proof (cases "t = piecewise_mixed")
  case False
  from calculateRegressionOnStore_frame_standard[OF assms False] show ?thesis .
next
  case True
  define t1 where "t1 = (if lowModel c = piecewise_mixed then linear_pearson else lowModel c)"
  define t2 where "t2 = (if highModel c = piecewise_mixed then linear_pearson else highModel c)"
  have t: "t1 \<noteq> piecewise_mixed" "t2 \<noteq> piecewise_mixed" by (simp_all add: t1_def t2_def)
  note r1 = calculateRegressionOnStore_frame_standard[OF _ t(1)]
  note r2 = calculateRegressionOnStore_frame_standard[OF _ t(2)]
  have l: "linear_pearson \<noteq> piecewise_mixed" by simp
  note r0 = calculateRegressionOnStore_frame_standard[OF _ l]
  show ?thesis
    unfolding True using assms
    by (subst (1 2) calculateRegressionOnStore.simps)
       (simp only: refl if_True frame_steps t1_def[symmetric] t2_def[symmetric]
          r0[THEN conjunct1] r0[THEN conjunct2] r1[THEN conjunct1] r1[THEN conjunct2]
          r2[THEN conjunct1] r2[THEN conjunct2] split: if_split sum.split)
qed

lemma filterOnStore_allocates: "length h < length (snd (filterOnStore ax ay t h))"
  by (simp add: filterOnStore_def Let_def alloc_simps)

lemma calculateRegressionOnStore_grows_standard:
  assumes "n \<le> length (snd (filterOnStore ax ay t h))" and nm: "t \<noteq> piecewise_mixed"
  shows "n \<le> length (snd (calculateRegressionOnStore ax ay t u c s h))"
  using assms(1)
  by (subst calculateRegressionOnStore.simps)
     (simp only: nm if_False frame_steps calculateMandelTestOnStore_frame[THEN conjunct1]
        split: if_split sum.split)

lemma calculateRegressionOnStore_grows:
  assumes "n \<le> length (snd (filterOnStore ax ay t h))"
  shows "n \<le> length (snd (calculateRegressionOnStore ax ay t u c s h))"
proof (cases "t = piecewise_mixed")
  case False
  from calculateRegressionOnStore_grows_standard[OF assms False] show ?thesis .
next
  case True
  define t1 where "t1 = (if lowModel c = piecewise_mixed then linear_pearson else lowModel c)"
  define t2 where "t2 = (if highModel c = piecewise_mixed then linear_pearson else highModel c)"
  note r = calculateRegressionOnStore_frame[THEN conjunct1]
  show ?thesis
    using assms unfolding True
    by (subst calculateRegressionOnStore.simps)
       (simp only: refl if_True frame_steps t1_def[symmetric] t2_def[symmetric] r
          split: if_split sum.split)
qed

text \<open>
  Claim C10. \<open>calculateRegression\<close> does not change the arrays that it is given: after the
  call the cells of \<open>x\<close> and \<open>y\<close> hold the elements they held before it, in the same
  order, and so does every other cell that existed before the call; all the writes of
  the call go to cells that it has created itself, of which there is at least one.
\<close>

theorem calculateRegression_keeps_input_arrays:
  assumes "ax < length h" and "ay < length h"
  shows "nums (snd (calculateRegressionOnStore ax ay t u c s h)) ax = nums h ax
       \<and> nums (snd (calculateRegressionOnStore ax ay t u c s h)) ay = nums h ay
       \<and> take (length h) (snd (calculateRegressionOnStore ax ay t u c s h)) = h
       \<and> length h < length (snd (calculateRegressionOnStore ax ay t u c s h))"
proof -
  let ?h = "snd (calculateRegressionOnStore ax ay t u c s h)"
  have f: "length h \<le> length ?h" "take (length h) ?h = h"
    using calculateRegressionOnStore_frame[of "length h" h ax ay t u c s] by simp_all
  have g: "length h < length ?h"
    using calculateRegressionOnStore_grows[of "Suc (length h)" ax ay t h u c s]
      filterOnStore_allocates[of h ax ay t] by simp
  have "?h ! a = h ! a" if "a < length h" for a
    using that f(2) by (metis nth_take)
  then show ?thesis
    using assms f g by (simp add: nums_def)
qed

theorem calculateRegression_keeps_input_arrays_witness:
  "(0::nat) < length exampleStore \<and> (1::nat) < length exampleStore
   \<and> nums (snd (calculateRegressionOnStore 0 1 piecewise_mixed False defaultChoice False exampleStore)) 0
       = exampleX
   \<and> nums (snd (calculateRegressionOnStore 0 1 piecewise_mixed False defaultChoice False exampleStore)) 1
       = exampleY"
proof -
  have "nums exampleStore 0 = exampleX" "nums exampleStore 1 = exampleY" "length exampleStore = 2"
    by (simp_all add: exampleStore_def nums_def)
  then show ?thesis
    using calculateRegression_keeps_input_arrays
      [of 0 exampleStore 1 piecewise_mixed False defaultChoice False]
    by (simp only: simp_thms pos2 one_less_numeral_iff semiring_norm)
qed

end
